theory Spec2Isabelle
  imports Main
begin

section \<open>The mail classifier backend (backend/index.js)\<close>

text \<open>
  The backend turns each fetched mail into one task: \<open>extractInfoWithGemini\<close> asks a
  generative model for eight labelled lines, \<open>parseDeadline\<close> turns the deadline text
  into a \<open>Date\<close>, \<open>categorizeTask\<close> picks the priority and \<open>processEmails\<close> runs
  the three for every mail of the batch.

  What the JavaScript does beyond returning a value is explicit here:
  \<^item> an exception is a value \<open>Inl e\<close> of a sum type, a normal return is \<open>Inr v\<close>;
  \<^item> \<open>new Date()\<close> and the call of the generative model read the outside world. The
    outside world is the record \<open>env\<close>; the number of reads made so far is the record
    \<open>world\<close>, passed through every function that reads;
  \<^item> a \<open>Date\<close> is its time value: \<open>Some t\<close>, with \<open>t\<close> the milliseconds since the
    epoch, or \<open>None\<close> for an Invalid Date (time value NaN). Time values are integers of
    magnitude at most 8.64e15, which a double holds exactly, so \<open>int\<close> arithmetic is
    the arithmetic of the code;
  \<^item> a string is the list of its characters, read as ASCII: \<open>toLowerCase\<close> and \<open>trim\<close>
    act on the ASCII letters and the ASCII white space.
\<close>

subsection \<open>Strings\<close>

definition toLowerCase_char :: "char \<Rightarrow> char" where
  "toLowerCase_char c =
     (case map_of (zip ''ABCDEFGHIJKLMNOPQRSTUVWXYZ'' ''abcdefghijklmnopqrstuvwxyz'') c of
        Some l \<Rightarrow> l
      | None \<Rightarrow> c)"

definition toLowerCase :: "string \<Rightarrow> string" where
  "toLowerCase s = map toLowerCase_char s"

definition is_space :: "char \<Rightarrow> bool" where
  "is_space c = (c \<in> set [CHR '' '', CHR 0x09, CHR 0x0A, CHR 0x0B, CHR 0x0C, CHR 0x0D])"

definition trim :: "string \<Rightarrow> string" where
  "trim s = rev (dropWhile is_space (rev (dropWhile is_space s)))"

definition is_digit :: "char \<Rightarrow> bool" where
  "is_digit c = (c \<in> set ''0123456789'')"

definition digit_value :: "char \<Rightarrow> int" where
  "digit_value c = of_char c - 48"

text \<open>\<open>parseInt(ds, 10)\<close> on a non-empty string of decimal digits.\<close>

definition parseInt :: "string \<Rightarrow> int" where
  "parseInt ds = foldl (\<lambda>a c. 10 * a + digit_value c) 0 ds"

text \<open>\<open>s.split(sep)\<close> for a one-character separator: \<open>''.split(sep)\<close> is \<open>['']\<close>.\<close>

fun split_on :: "char \<Rightarrow> string \<Rightarrow> string list" where
  "split_on sep [] = [[]]"
| "split_on sep (c # cs) =
     (if c = sep then [] # split_on sep cs
      else (case split_on sep cs of
              [] \<Rightarrow> [[c]]
            | l # ls \<Rightarrow> (c # l) # ls))"

text \<open>\<open>s.replace(pat, '')\<close> for a string pattern: the first occurrence of \<open>pat\<close> is removed.\<close>

fun replace_empty :: "string \<Rightarrow> string \<Rightarrow> string" where
  "replace_empty pat [] = []"
| "replace_empty pat (c # cs) =
     (if take (length pat) (c # cs) = pat then drop (length pat) (c # cs)
      else c # replace_empty pat cs)"

text \<open>\<open>s.includes(sub)\<close>.\<close>

fun str_includes :: "string \<Rightarrow> string \<Rightarrow> bool" where
  "str_includes [] sub = (sub = [])"
| "str_includes (c # cs) sub = (take (length sub) (c # cs) = sub \<or> str_includes cs sub)"

subsection \<open>The outside world\<close>

datatype js_error = RangeError | TypeError | ServiceError

text \<open>
  What \<open>geminiModel.generateContent(prompt)\<close> followed by \<open>result.response.text()\<close> can
  do: the call rejects, reading the text throws, or there is a text.
\<close>

datatype gemini_outcome = CallFails js_error | TextFails js_error | Text string

text \<open>
  \<open>clock k\<close> is what the \<open>k\<close>-th \<open>new Date()\<close> of the run returns, \<open>generate k prompt\<close> what
  the \<open>k\<close>-th call of the model does. \<open>date_fns_parse\<close> is the \<open>parse\<close> of the date-fns
  library (string, format, reference date), which is not part of the repository.
  \<open>tz_offset\<close> is the offset of local time from UTC in milliseconds; the host's zone is
  taken to have one fixed offset. \<open>base64_utf8 d\<close> is
  \<open>Buffer.from(d, 'base64').toString('utf-8')\<close>.
\<close>

record env =
  clock :: "nat \<Rightarrow> int"
  generate :: "nat \<Rightarrow> string \<Rightarrow> gemini_outcome"
  date_fns_parse :: "string \<Rightarrow> string \<Rightarrow> int \<Rightarrow> int option"
  tz_offset :: int
  base64_utf8 :: "string \<Rightarrow> string"

record world =
  clock_reads :: nat
  model_calls :: nat

definition new_Date :: "env \<Rightarrow> world \<Rightarrow> int \<times> world" where
  "new_Date e w = (clock e (clock_reads w), w\<lparr>clock_reads := Suc (clock_reads w)\<rparr>)"

definition generateContent :: "env \<Rightarrow> string \<Rightarrow> world \<Rightarrow> gemini_outcome \<times> world" where
  "generateContent e prompt w =
     (generate e (model_calls w) prompt, w\<lparr>model_calls := Suc (model_calls w)\<rparr>)"

subsection \<open>Dates\<close>

type_synonym Date = "int option"

abbreviation msPerSecond :: int where "msPerSecond \<equiv> 1000"
abbreviation msPerMinute :: int where "msPerMinute \<equiv> 60000"
abbreviation msPerHour :: int where "msPerHour \<equiv> 3600000"
abbreviation msPerDay :: int where "msPerDay \<equiv> 86400000"

text \<open>\<open>TimeClip\<close>: a time value beyond 8.64e15 ms makes the Date invalid.\<close>

definition TimeClip :: "int \<Rightarrow> Date" where
  "TimeClip t = (if \<bar>t\<bar> \<le> 8640000000000000 then Some t else None)"

definition Day :: "int \<Rightarrow> int" where
  "Day t = t div msPerDay"

definition TimeWithinDay :: "int \<Rightarrow> int" where
  "TimeWithinDay t = t mod msPerDay"

text \<open>
  The proleptic Gregorian calendar. \<open>civil_from_days d\<close> is the year, the month (0 to 11)
  and the day of the month of day number \<open>d\<close> (day 0 is 1 January 1970): the 400-year
  era, its century, the 4-year cycle and the year of the cycle, counted from 1 March.
\<close>

definition civil_from_days :: "int \<Rightarrow> int \<times> int \<times> int" where
  "civil_from_days d =
     (let z = d + 719468;
          era = z div 146097;
          doe = z mod 146097;
          c = min 3 (doe div 36524);
          r1 = doe - 36524 * c;
          q = r1 div 1461;
          r2 = r1 mod 1461;
          k = min 3 (r2 div 365);
          doy = r2 - 365 * k;
          yoe = 100 * c + 4 * q + k;
          mp = (5 * doy + 2) div 153;
          dd = doy - (153 * mp + 2) div 5 + 1;
          m = (if mp < 10 then mp + 2 else mp - 10);
          y = 400 * era + yoe + (if m \<le> 1 then 1 else 0)
      in (y, m, dd))"

definition YearFromTime :: "int \<Rightarrow> int" where
  "YearFromTime t = fst (civil_from_days (Day t))"

definition MonthFromTime :: "int \<Rightarrow> int" where
  "MonthFromTime t = fst (snd (civil_from_days (Day t)))"

definition DateFromTime :: "int \<Rightarrow> int" where
  "DateFromTime t = snd (snd (civil_from_days (Day t)))"

definition HourFromTime :: "int \<Rightarrow> int" where
  "HourFromTime t = TimeWithinDay t div msPerHour"

definition MinFromTime :: "int \<Rightarrow> int" where
  "MinFromTime t = (t div msPerMinute) mod 60"

definition SecFromTime :: "int \<Rightarrow> int" where
  "SecFromTime t = (t div msPerSecond) mod 60"

definition msFromTime :: "int \<Rightarrow> int" where
  "msFromTime t = t mod msPerSecond"

text \<open>
  \<open>MakeDay year month date\<close>: the day number of the first of the month (a month outside
  0 to 11 carries into the year), plus \<open>date - 1\<close>.
\<close>

definition MakeDay :: "int \<Rightarrow> int \<Rightarrow> int \<Rightarrow> int" where
  "MakeDay year month date =
     (let ym = year + month div 12;
          mn = month mod 12;
          y = ym - (if mn \<le> 1 then 1 else 0);
          era = y div 400;
          yoe = y mod 400;
          mp = (if 2 \<le> mn then mn - 2 else mn + 10);
          doy = (153 * mp + 2) div 5;
          doe = 365 * yoe + yoe div 4 - yoe div 100 + doy
      in 146097 * era + doe - 719468 + (date - 1))"

definition MakeTime :: "int \<Rightarrow> int \<Rightarrow> int \<Rightarrow> int \<Rightarrow> int" where
  "MakeTime h m s ms = h * msPerHour + m * msPerMinute + s * msPerSecond + ms"

definition MakeDate :: "int \<Rightarrow> int \<Rightarrow> int" where
  "MakeDate day time = day * msPerDay + time"

definition LocalTime :: "env \<Rightarrow> int \<Rightarrow> int" where
  "LocalTime e t = t + tz_offset e"

definition UTC :: "env \<Rightarrow> int \<Rightarrow> int" where
  "UTC e t = t - tz_offset e"

definition getFullYear :: "env \<Rightarrow> int \<Rightarrow> int" where
  "getFullYear e t = YearFromTime (LocalTime e t)"

definition getMonth :: "env \<Rightarrow> int \<Rightarrow> int" where
  "getMonth e t = MonthFromTime (LocalTime e t)"

definition getDate :: "env \<Rightarrow> int \<Rightarrow> int" where
  "getDate e t = DateFromTime (LocalTime e t)"





text \<open>
  \<open>new Date(year, month, date, hours, minutes, seconds)\<close>, in local time; a year from 0
  to 99 stands for 1900 + year.
\<close>

definition Date_local :: "env \<Rightarrow> int \<Rightarrow> int \<Rightarrow> int \<Rightarrow> int \<Rightarrow> int \<Rightarrow> int \<Rightarrow> Date" where
  "Date_local e year month date hours minutes seconds =
     (let yr = (if 0 \<le> year \<and> year \<le> 99 then 1900 + year else year)
      in TimeClip (UTC e (MakeDate (MakeDay yr month date) (MakeTime hours minutes seconds 0))))"

text \<open>\<open>d.setDate(date)\<close> and \<open>d.setHours(h, m, s)\<close> on a valid Date with time value \<open>t\<close>.\<close>

definition setDate :: "env \<Rightarrow> int \<Rightarrow> int \<Rightarrow> Date" where
  "setDate e t date =
     (let lt = LocalTime e t
      in TimeClip (UTC e (MakeDate (MakeDay (YearFromTime lt) (MonthFromTime lt) date)
                                   (TimeWithinDay lt))))"

definition setHours :: "env \<Rightarrow> int \<Rightarrow> int \<Rightarrow> int \<Rightarrow> int \<Rightarrow> Date" where
  "setHours e t h m s =
     (let lt = LocalTime e t
      in TimeClip (UTC e (MakeDate (Day lt) (MakeTime h m s (msFromTime lt)))))"

subsection \<open>The functions of date-fns the backend calls\<close>

text \<open>
  \<open>addDays(date, amount)\<close> is \<open>date.setDate(date.getDate() + amount)\<close> (the date itself
  when \<open>amount\<close> is 0), \<open>addHours(date, amount)\<close> is
  \<open>new Date(date.getTime() + amount * 3600000)\<close>, \<open>differenceInHours(l, r)\<close> is the
  difference of the time values divided by 3600000 and truncated towards zero, NaN
  (\<open>None\<close>) when one of the dates is invalid. \<open>isValid(d)\<close> tells whether the time
  value is a number: whether \<open>d\<close> is \<open>Some t\<close>.
\<close>

definition addDays :: "env \<Rightarrow> int \<Rightarrow> int \<Rightarrow> Date" where
  "addDays e t amount = (if amount = 0 then Some t else setDate e t (getDate e t + amount))"

definition addHours :: "int \<Rightarrow> int \<Rightarrow> Date" where
  "addHours t amount = TimeClip (t + amount * msPerHour)"

definition trunc_div :: "int \<Rightarrow> int \<Rightarrow> int" where
  "trunc_div a b = (if 0 \<le> a then a div b else - ((- a) div b))"

definition differenceInHours :: "Date \<Rightarrow> Date \<Rightarrow> int option" where
  "differenceInHours l r =
     (case (l, r) of
        (Some a, Some b) \<Rightarrow> Some (trunc_div (a - b) msPerHour)
      | _ \<Rightarrow> None)"

text \<open>\<open>x <= n\<close> for a number \<open>x\<close> that may be NaN: false on NaN.\<close>

definition js_le :: "int option \<Rightarrow> int \<Rightarrow> bool" where
  "js_le x n = (case x of None \<Rightarrow> False | Some h \<Rightarrow> h \<le> n)"

subsection \<open>extractInfoWithGemini\<close>

record Extracted =
  eventType :: string
  subject :: string
  deadline :: string
  urgency :: string
  importance :: string
  score :: string
  registrationLink :: string
  summary :: string

text \<open>The template literal of the prompt, with the content of the mail spliced in.\<close>

definition make_prompt :: "string \<Rightarrow> string" where
  "make_prompt emailContent =
     ''\<newline>    Analyze the email content and extract task details for classification into ''
     @ [CHR 0x22] @ ''Urgent,'' @ [CHR 0x22] @ '' '' @ [CHR 0x22] @ ''Important,'' @ [CHR 0x22]
     @ '' or '' @ [CHR 0x22] @ ''Later'' @ [CHR 0x22]
     @ ''. Use today's date: 14/06/2025.\<newline>\<newline>''
     @ ''    Return this format:\<newline>''
     @ ''    Event Type: <type>\<newline>''
     @ ''    Subject: <subject>\<newline>''
     @ ''    Deadline: <deadline>\<newline>''
     @ ''    Urgency: <high/medium/low>\<newline>''
     @ ''    Importance: <high/medium/low>\<newline>''
     @ ''    Score: <score>\<newline>''
     @ ''    Registration Link: <link>\<newline>''
     @ ''    Summary: <summary>\<newline>\<newline>''
     @ ''    Email: '' @ [CHR 0x22] @ emailContent @ [CHR 0x22] @ ''\<newline>  ''"

text \<open>\<open>text.split('\n').filter(Boolean)\<close>: the non-empty lines of the response.\<close>

definition response_lines :: "string \<Rightarrow> string list" where
  "response_lines txt = filter (\<lambda>l. l \<noteq> []) (split_on (CHR 0x0A) txt)"

text \<open>
  \<open>lines[i]?.replace(label, '') || dflt\<close>: the default stands in when there is no line
  \<open>i\<close>, and when the line is empty once the label is removed.
\<close>

definition field :: "string list \<Rightarrow> nat \<Rightarrow> string \<Rightarrow> string \<Rightarrow> string" where
  "field lines i label dflt =
     (if i < length lines
      then (let v = replace_empty label (lines ! i) in if v = [] then dflt else v)
      else dflt)"

text \<open>The object that the \<open>try\<close> block returns, and the one that the \<open>catch\<close> block returns.\<close>

definition parse_response :: "string \<Rightarrow> string \<Rightarrow> Extracted" where
  "parse_response txt subj =
     (let lines = response_lines txt
      in \<lparr> eventType = field lines 0 ''Event Type: '' ''Email'',
           subject = field lines 1 ''Subject: '' subj,
           deadline = field lines 2 ''Deadline: '' ''none'',
           urgency = field lines 3 ''Urgency: '' ''low'',
           importance = field lines 4 ''Importance: '' ''low'',
           score = field lines 5 ''Score: '' ''none'',
           registrationLink = field lines 6 ''Registration Link: '' ''none'',
           summary = field lines 7 ''Summary: '' ''No summary.'' \<rparr>)"

definition fallback :: "string \<Rightarrow> Extracted" where
  "fallback subj =
     \<lparr> eventType = ''Email'',
       subject = subj,
       deadline = ''none'',
       urgency = ''low'',
       importance = ''low'',
       score = ''none'',
       registrationLink = ''none'',
       summary = ''Could not extract information.'' \<rparr>"

text \<open>
  The \<open>try\<close> block raises when the call or the reading of its text raises; the \<open>catch\<close>
  block turns whatever was raised into the fallback object. The result is what the
  \<open>async\<close> function settles to: \<open>Inr\<close> a value, or \<open>Inl\<close> an error it would reject with.
\<close>

definition try_block :: "gemini_outcome \<Rightarrow> string \<Rightarrow> js_error + Extracted" where
  "try_block outcome subj =
     (case outcome of
        CallFails err \<Rightarrow> Inl err
      | TextFails err \<Rightarrow> Inl err
      | Text txt \<Rightarrow> Inr (parse_response txt subj))"

definition extractInfoWithGemini ::
    "env \<Rightarrow> string \<Rightarrow> string \<Rightarrow> world \<Rightarrow> (js_error + Extracted) \<times> world" where
  "extractInfoWithGemini e emailContent subj w =
     (let (outcome, w') = generateContent e (make_prompt emailContent) w
      in (case try_block outcome subj of
            Inr r \<Rightarrow> (Inr r, w')
          | Inl err \<Rightarrow> (Inr (fallback subj), w')))"

subsection \<open>parseDeadline\<close>

text \<open>
  \<open>deadlineStr.match(/within (\d+) hours/)\<close>. \<open>within_at s\<close> is the match that starts at
  the first character of \<open>s\<close>: the word, the longest run of digits (which must not be
  empty; a shorter run would be followed by a digit, not by the space) and the word
  \<open>hours\<close>. \<open>match_within\<close> tries the start positions from left to right and gives the
  captured digits of the first match.
\<close>

definition within_at :: "string \<Rightarrow> string option" where
  "within_at s =
     (if take 7 s = ''within ''
      then (let r = drop 7 s;
                ds = takeWhile is_digit r;
                rest = dropWhile is_digit r
            in if ds \<noteq> [] \<and> take 6 rest = '' hours'' then Some ds else None)
      else None)"

fun match_within :: "string \<Rightarrow> string option" where
  "match_within [] = None"
| "match_within (c # cs) =
     (case within_at (c # cs) of
        Some ds \<Rightarrow> Some ds
      | None \<Rightarrow> match_within cs)"

definition formats :: "string list" where
  "formats = [''dd/MM/yyyy HH:mm'', ''dd/MM/yyyy'', ''yyyy-MM-dd'', ''MMMM d, yyyy'', ''dd MMM yyyy'']"

text \<open>
  The loop over the formats: the first format whose parse is a valid Date decides; a
  format without \<open>HH:mm\<close> has its time set by \<open>setHours(23, 59, 59)\<close>. \<open>None\<close> when the
  loop ends without a return.
\<close>

fun try_formats :: "env \<Rightarrow> string \<Rightarrow> int \<Rightarrow> string list \<Rightarrow> Date option" where
  "try_formats e s now [] = None"
| "try_formats e s now (fmt # fmts) =
     (case date_fns_parse e s fmt now of
        Some t \<Rightarrow> Some (if \<not> str_includes fmt ''HH:mm'' then setHours e t 23 59 59 else Some t)
      | None \<Rightarrow> try_formats e s now fmts)"

definition parseDeadline :: "env \<Rightarrow> string \<Rightarrow> world \<Rightarrow> Date \<times> world" where
  "parseDeadline e deadlineStr w =
     (let (now, w') = new_Date e w;
          s = trim (toLowerCase deadlineStr)
      in (if s = ''today''
          then Date_local e (getFullYear e now) (getMonth e now) (getDate e now) 23 59 59
          else if s = ''tomorrow'' then addDays e now 1
          else if s = ''day after tomorrow'' then addDays e now 2
          else if s = ''none'' then addDays e now 7
          else (case match_within s of
                  Some ds \<Rightarrow> addHours now (parseInt ds)
                | None \<Rightarrow>
                    (case try_formats e s now formats of
                       Some d \<Rightarrow> d
                     | None \<Rightarrow> addDays e now 7)),
          w'))"

subsection \<open>categorizeTask\<close>

text \<open>
  The three labels stand for the string literals the function returns (a coloured
  circle followed by the word).
\<close>

datatype priority = Urgent | Important | Later

definition categorizeTask :: "env \<Rightarrow> Extracted \<Rightarrow> Date \<Rightarrow> world \<Rightarrow> priority \<times> world" where
  "categorizeTask e extracted dl w =
     (let (now, w') = new_Date e w;
          hoursLeft = differenceInHours dl (Some now);
          isUrgent = (js_le hoursLeft 24 \<or> urgency extracted = ''high'');
          isImportant = (js_le hoursLeft 72 \<or> importance extracted = ''high'')
      in (if isUrgent then Urgent else if isImportant then Important else Later, w'))"

subsection \<open>toISOString\<close>

definition digit_char :: "int \<Rightarrow> char" where
  "digit_char n = ''0123456789'' ! nat n"

definition pad2 :: "int \<Rightarrow> string" where
  "pad2 n = [digit_char (n div 10 mod 10), digit_char (n mod 10)]"

definition pad3 :: "int \<Rightarrow> string" where
  "pad3 n = [digit_char (n div 100 mod 10), digit_char (n div 10 mod 10), digit_char (n mod 10)]"

definition pad4 :: "int \<Rightarrow> string" where
  "pad4 n = digit_char (n div 1000 mod 10) # pad3 n"

definition pad6 :: "int \<Rightarrow> string" where
  "pad6 n = digit_char (n div 100000 mod 10) # digit_char (n div 10000 mod 10) # pad4 n"

definition iso_year :: "int \<Rightarrow> string" where
  "iso_year y =
     (if 0 \<le> y \<and> y \<le> 9999 then pad4 y
      else (if y < 0 then ''-'' else ''+'') @ pad6 \<bar>y\<bar>)"

text \<open>
  \<open>d.toISOString()\<close>: a RangeError on an Invalid Date, else the UTC fields as
  \<open>YYYY-MM-DDTHH:mm:ss.sssZ\<close>, the year with a sign and six digits outside 0 to 9999.
\<close>

definition toISOString :: "Date \<Rightarrow> js_error + string" where
  "toISOString d =
     (case d of
        None \<Rightarrow> Inl RangeError
      | Some t \<Rightarrow>
          Inr (iso_year (YearFromTime t) @ ''-'' @ pad2 (MonthFromTime t + 1) @ ''-''
               @ pad2 (DateFromTime t) @ ''T'' @ pad2 (HourFromTime t) @ '':''
               @ pad2 (MinFromTime t) @ '':'' @ pad2 (SecFromTime t) @ ''.''
               @ pad3 (msFromTime t) @ ''Z''))"

subsection \<open>processEmails\<close>

record part =
  mimeType :: string
  part_data :: "string option"

text \<open>
  A fetched message: the headers as pairs of name and value (\<open>payload.headers || []\<close>),
  \<open>payload.parts\<close> when there is one, and \<open>payload.body.data\<close> when there is one.
\<close>

record email =
  headers :: "(string \<times> string) list"
  parts :: "part list option"
  body_data :: "string option"

record Task =
  task_eventType :: string
  task_subject :: string
  task_deadline :: string
  task_urgency :: string
  task_importance :: string
  task_score :: string
  task_priority :: priority
  task_registrationLink :: string
  task_summary :: string

text \<open>\<open>headers.find(h => h.name === 'Subject')?.value || 'No Subject'\<close>.\<close>

definition subject_of :: "email \<Rightarrow> string" where
  "subject_of m =
     (case find (\<lambda>h. fst h = ''Subject'') (headers m) of
        None \<Rightarrow> ''No Subject''
      | Some h \<Rightarrow> if snd h = [] then ''No Subject'' else snd h)"

text \<open>The loop over the parts: the first \<open>text/plain\<close> part with data gives the body.\<close>

fun plain_part :: "env \<Rightarrow> part list \<Rightarrow> string" where
  "plain_part e [] = []"
| "plain_part e (p # ps) =
     (case part_data p of
        Some d \<Rightarrow> if mimeType p = ''text/plain'' \<and> d \<noteq> [] then base64_utf8 e d else plain_part e ps
      | None \<Rightarrow> plain_part e ps)"

definition body_of :: "env \<Rightarrow> email \<Rightarrow> string" where
  "body_of e m =
     (case parts m of
        Some ps \<Rightarrow> plain_part e ps
      | None \<Rightarrow>
          (case body_data m of
             Some d \<Rightarrow> if d \<noteq> [] then base64_utf8 e d else []
           | None \<Rightarrow> []))"

text \<open>
  The body of the loop of \<open>processEmails\<close> for one mail: an error ends the whole
  function, as nothing catches it.
\<close>

definition processEmail :: "env \<Rightarrow> email \<Rightarrow> world \<Rightarrow> (js_error + Task) \<times> world" where
  "processEmail e m w =
     (let subj = subject_of m;
          body = body_of e m;
          (r, w1) = extractInfoWithGemini e body subj w
      in (case r of
            Inl err \<Rightarrow> (Inl err, w1)
          | Inr extracted \<Rightarrow>
              (let (dl, w2) = parseDeadline e (deadline extracted) w1;
                   (prio, w3) = categorizeTask e extracted dl w2
               in (case toISOString dl of
                     Inl err \<Rightarrow> (Inl err, w3)
                   | Inr isoStr \<Rightarrow>
                       (Inr \<lparr> task_eventType = eventType extracted,
                              task_subject = subject extracted,
                              task_deadline = isoStr,
                              task_urgency = urgency extracted,
                              task_importance = importance extracted,
                              task_score = score extracted,
                              task_priority = prio,
                              task_registrationLink = registrationLink extracted,
                              task_summary = summary extracted \<rparr>, w3)))))"

fun processEmails_loop ::
    "env \<Rightarrow> email list \<Rightarrow> Task list \<Rightarrow> world \<Rightarrow> (js_error + Task list) \<times> world" where
  "processEmails_loop e [] tasks w = (Inr tasks, w)"
| "processEmails_loop e (m # ms) tasks w =
     (case processEmail e m w of
        (Inl err, w') \<Rightarrow> (Inl err, w')
      | (Inr t, w') \<Rightarrow> processEmails_loop e ms (tasks @ [t]) w')"

definition processEmails :: "env \<Rightarrow> email list \<Rightarrow> world \<Rightarrow> (js_error + Task list) \<times> world" where
  "processEmails e emails w = processEmails_loop e emails [] w"

subsection \<open>Reading the interchange string back\<close>

text \<open>
  Modelled from the spec: the parser that reads a task's deadline back is not in the
  repository. The spec calls the string an ISO-8601 absolute timestamp, so the parser
  is the one of that format as \<open>toISOString\<close> writes it: the year (four digits, or a sign
  and six digits), month, day, \<open>T\<close>, hours, minutes, seconds, milliseconds and \<open>Z\<close>, read
  as UTC.
\<close>

definition digits_int :: "string \<Rightarrow> int option" where
  "digits_int s = (if s \<noteq> [] \<and> list_all is_digit s then Some (parseInt s) else None)"

definition Date_parse :: "string \<Rightarrow> Date" where
  "Date_parse s =
     (let (sgn, ylen, rest) =
            (case s of
               [] \<Rightarrow> (1, 4, s)
             | c # cs \<Rightarrow>
                 if c = CHR ''+'' then (1, 6, cs)
                 else if c = CHR ''-'' then (- 1, 6, cs)
                 else (1, 4, s));
          ys = take ylen rest;
          r = drop ylen rest
      in if length ys = ylen \<and> length r = 20 \<and> r ! 0 = CHR ''-'' \<and> r ! 3 = CHR ''-''
            \<and> r ! 6 = CHR ''T'' \<and> r ! 9 = CHR '':'' \<and> r ! 12 = CHR '':''
            \<and> r ! 15 = CHR ''.'' \<and> r ! 19 = CHR ''Z''
         then (case (digits_int ys, digits_int (take 2 (drop 1 r)),
                     digits_int (take 2 (drop 4 r)), digits_int (take 2 (drop 7 r)),
                     digits_int (take 2 (drop 10 r)), digits_int (take 2 (drop 13 r)),
                     digits_int (take 3 (drop 16 r))) of
                 (Some y, Some mo, Some d, Some h, Some mi, Some sec, Some ms) \<Rightarrow>
                   if 1 \<le> mo \<and> mo \<le> 12 \<and> 1 \<le> d \<and> d \<le> 31 \<and> h \<le> 23 \<and> mi \<le> 59 \<and> sec \<le> 59
                   then TimeClip (MakeDate (MakeDay (sgn * y) (mo - 1) d) (MakeTime h mi sec ms))
                   else None
               | _ \<Rightarrow> None)
         else None)"

subsection \<open>The fields of the response and concrete runs\<close>

text \<open>
  The eight fields in the order of the lines: the index of the line, the label that is
  removed, the default and the field of the object.
\<close>

definition field_table ::
    "string \<Rightarrow> (nat \<times> string \<times> string \<times> (Extracted \<Rightarrow> string)) list" where
  "field_table subj =
     [(0, ''Event Type: '', ''Email'', eventType),
      (1, ''Subject: '', subj, subject),
      (2, ''Deadline: '', ''none'', deadline),
      (3, ''Urgency: '', ''low'', urgency),
      (4, ''Importance: '', ''low'', importance),
      (5, ''Score: '', ''none'', score),
      (6, ''Registration Link: '', ''none'', registrationLink),
      (7, ''Summary: '', ''No summary.'', summary)]"

text \<open>
  A run starts with no read made. \<open>test_env clk outcomes\<close> is a host in UTC whose clock
  and model answer as given and whose date-fns \<open>parse\<close> recognises nothing.
\<close>

definition start :: world where
  "start = \<lparr> clock_reads = 0, model_calls = 0 \<rparr>"

definition test_env :: "(nat \<Rightarrow> int) \<Rightarrow> (nat \<Rightarrow> gemini_outcome) \<Rightarrow> env" where
  "test_env clk outcomes =
     \<lparr> clock = clk, generate = (\<lambda>k prompt. outcomes k), date_fns_parse = (\<lambda>s fmt now. None),
       tz_offset = 0, base64_utf8 = (\<lambda>d. d) \<rparr>"

definition three_lines :: string where
  "three_lines = ''Event Type: Hackathon\<newline>Subject: \<newline>Deadline: tomorrow''"

definition unlabeled_reply :: string where
  "unlabeled_reply = ''Event Type: x\<newline>Subject: y\<newline>Deadline: none\<newline>ASAP!!''"

text \<open>A date-fns \<open>parse\<close> that recognises one date in one format.\<close>

definition iso_date_parse :: "string \<Rightarrow> string \<Rightarrow> int \<Rightarrow> int option" where
  "iso_date_parse s fmt now =
     (if fmt = ''yyyy-MM-dd'' \<and> s = ''2025-06-20'' then Some 1750377600000 else None)"

text \<open>
  A clock that advances by one millisecond from one reading to the next, a fetched
  mail, a response whose deadline is too far away for a Date, and a response whose
  deadline is 25 hours away.
\<close>

definition tick_clock :: "nat \<Rightarrow> int" where
  "tick_clock k = 1750000000000 + int k"

definition sample_mail :: email where
  "sample_mail = \<lparr> headers = [(''From'', ''a@example.org''), (''Subject'', ''Team sync'')],
                   parts = None, body_data = Some ''SGVsbG8='' \<rparr>"

definition huge_reply :: string where
  "huge_reply = ''Event Type: Offer\<newline>Subject: Reply soon\<newline>Deadline: within 9999999999 hours''"

definition drift_reply :: string where
  "drift_reply = ''Event Type: Meeting\<newline>Subject: Team sync\<newline>Deadline: within 25 hours\<newline>Urgency: low\<newline>Importance: low\<newline>Score: 5\<newline>Registration Link: none\<newline>Summary: A meeting''"

section \<open>Properties\<close>

subsection \<open>Extraction\<close>

lemma extract_Text:
  "generate e (model_calls w) (make_prompt body) = Text txt \<Longrightarrow>
   extractInfoWithGemini e body subj w =
     (Inr (parse_response txt subj), w\<lparr>model_calls := Suc (model_calls w)\<rparr>)"
  by (simp add: extractInfoWithGemini_def generateContent_def try_block_def)

lemma extract_CallFails:
  "generate e (model_calls w) (make_prompt body) = CallFails err \<Longrightarrow>
   extractInfoWithGemini e body subj w =
     (Inr (fallback subj), w\<lparr>model_calls := Suc (model_calls w)\<rparr>)"
  by (simp add: extractInfoWithGemini_def generateContent_def try_block_def)

lemma extract_TextFails:
  "generate e (model_calls w) (make_prompt body) = TextFails err \<Longrightarrow>
   extractInfoWithGemini e body subj w =
     (Inr (fallback subj), w\<lparr>model_calls := Suc (model_calls w)\<rparr>)"
  by (simp add: extractInfoWithGemini_def generateContent_def try_block_def)

lemma extract_total:
  "\<exists>r. extractInfoWithGemini e body subj w = (Inr r, w\<lparr>model_calls := Suc (model_calls w)\<rparr>)"
  by (cases "generate e (model_calls w) (make_prompt body)")
     (simp_all add: extract_Text extract_CallFails extract_TextFails)



lemma field_nonempty: "dflt \<noteq> [] \<Longrightarrow> field ls i label dflt \<noteq> []"
  by (simp add: field_def Let_def)

text \<open>
  C4. When the model answers with a text, whatever the number of its lines, the result
  is an object with all eight fields, and each field is decided on its own: it is its
  line with the label removed when there is such a line and something is left of it,
  and the default of that field otherwise. No field is empty (the subject that is
  passed in is never empty in \<open>processEmails\<close>).
\<close>

theorem C4_per_field_defaults:
  assumes "generate e (model_calls w) (make_prompt body) = Text txt"
  shows "\<exists>r. fst (extractInfoWithGemini e body subj w) = Inr r \<and>
     (\<forall>(i, label, dflt, sel) \<in> set (field_table subj).
        sel r = (if i < length (response_lines txt)
                    \<and> replace_empty label (response_lines txt ! i) \<noteq> []
                 then replace_empty label (response_lines txt ! i) else dflt)) \<and>
     (subj \<noteq> [] \<longrightarrow> (\<forall>(i, label, dflt, sel) \<in> set (field_table subj). sel r \<noteq> []))"
proof -
  have "\<forall>(i, label, dflt, sel) \<in> set (field_table subj).
        sel (parse_response txt subj) =
          (if i < length (response_lines txt)
              \<and> replace_empty label (response_lines txt ! i) \<noteq> []
           then replace_empty label (response_lines txt ! i) else dflt)"
    by (simp add: field_table_def parse_response_def field_def Let_def)
  moreover have "subj \<noteq> [] \<longrightarrow>
      (\<forall>(i, label, dflt, sel) \<in> set (field_table subj). sel (parse_response txt subj) \<noteq> [])"
    by (simp add: field_table_def parse_response_def Let_def field_nonempty)
  ultimately show ?thesis using extract_Text[OF assms, of subj] by simp
qed

theorem C4_witness:
  "generate (test_env (\<lambda>k. 0) (\<lambda>k. Text three_lines)) (model_calls start)
       (make_prompt ''Dear all'')
     = Text three_lines \<and>
   (\<exists>r. fst (extractInfoWithGemini (test_env (\<lambda>k. 0) (\<lambda>k. Text three_lines))
               ''Dear all'' ''Hello'' start) = Inr r \<and>
      eventType r = ''Hackathon'' \<and> subject r = ''Hello'' \<and> deadline r = ''tomorrow'' \<and>
      urgency r = ''low'' \<and> importance r = ''low'' \<and> score r = ''none'' \<and>
      registrationLink r = ''none'' \<and> summary r = ''No summary.'')"
  using C4_per_field_defaults[of "test_env (\<lambda>k. 0) (\<lambda>k. Text three_lines)" start
      "''Dear all''" three_lines "''Hello''"]
  by (auto simp add: test_env_def field_table_def three_lines_def response_lines_def)

lemma replace_empty_absent: "\<not> str_includes l label \<Longrightarrow> replace_empty label l = l"
  by (induction l) auto

lemma split_on_no_sep: "sep \<notin> set u \<Longrightarrow> split_on sep u = [u]"
  by (induction u) auto

lemma response_lines_nonempty:
  assumes "i < length (response_lines txt)"
  shows "response_lines txt ! i \<noteq> []"
proof -
  from assms have "response_lines txt ! i \<in> set (response_lines txt)" by simp
  then show ?thesis by (simp add: response_lines_def)
qed

lemma response_lines_three_then:
  "u \<noteq> [] \<Longrightarrow> CHR 0x0A \<notin> set u \<Longrightarrow>
   response_lines (''Event Type: x\<newline>Subject: y\<newline>Deadline: none\<newline>'' @ u)
     = [''Event Type: x'', ''Subject: y'', ''Deadline: none'', u]"
  by (simp add: response_lines_def split_on_no_sep)

lemma response_lines_four_then:
  "u \<noteq> [] \<Longrightarrow> CHR 0x0A \<notin> set u \<Longrightarrow>
   response_lines
     (''Event Type: x\<newline>Subject: y\<newline>Deadline: none\<newline>Urgency: low\<newline>'' @ u)
     = [''Event Type: x'', ''Subject: y'', ''Deadline: none'', ''Urgency: low'', u]"
  by (simp add: response_lines_def split_on_no_sep)

text \<open>
  C10. When the model answers with a text, a line \<open>i\<close> that is there and is not empty
  once the first occurrence of its label is removed is stored as it is left, never
  replaced by the default; a line without the label is stored verbatim. Nothing checks
  the value: for every non-empty one-line string \<open>u\<close> without the label there is a
  response after which \<open>urgency\<close> is \<open>u\<close>, and one after which \<open>importance\<close> is \<open>u\<close>.
\<close>

theorem C10_fields_not_validated:
  assumes "generate e (model_calls w) (make_prompt body) = Text txt"
  shows "\<exists>r. fst (extractInfoWithGemini e body subj w) = Inr r \<and>
     (\<forall>(i, label, dflt, sel) \<in> set (field_table subj).
        i < length (response_lines txt) \<longrightarrow>
          (replace_empty label (response_lines txt ! i) \<noteq> [] \<longrightarrow>
             sel r = replace_empty label (response_lines txt ! i)) \<and>
          (\<not> str_includes (response_lines txt ! i) label \<longrightarrow>
             sel r = response_lines txt ! i)) \<and>
     (u \<noteq> [] \<and> CHR 0x0A \<notin> set u \<and> \<not> str_includes u ''Urgency: '' \<and>
      txt = ''Event Type: x\<newline>Subject: y\<newline>Deadline: none\<newline>'' @ u
        \<longrightarrow> urgency r = u) \<and>
     (u \<noteq> [] \<and> CHR 0x0A \<notin> set u \<and> \<not> str_includes u ''Importance: '' \<and>
      txt = ''Event Type: x\<newline>Subject: y\<newline>Deadline: none\<newline>Urgency: low\<newline>'' @ u
        \<longrightarrow> importance r = u)"
proof -
  let ?r = "parse_response txt subj"
  have stored: "field (response_lines txt) i label dflt = replace_empty label (response_lines txt ! i)"
    if "i < length (response_lines txt)" "replace_empty label (response_lines txt ! i) \<noteq> []"
    for i label dflt
    using that by (simp add: field_def Let_def)
  have verbatim: "field (response_lines txt) i label dflt = response_lines txt ! i"
    if "i < length (response_lines txt)" "\<not> str_includes (response_lines txt ! i) label"
    for i label dflt
    using that response_lines_nonempty[of i "txt"]
    by (simp add: field_def Let_def replace_empty_absent)
  have 1: "\<forall>(i, label, dflt, sel) \<in> set (field_table subj).
        i < length (response_lines txt) \<longrightarrow>
          (replace_empty label (response_lines txt ! i) \<noteq> [] \<longrightarrow>
             sel ?r = replace_empty label (response_lines txt ! i)) \<and>
          (\<not> str_includes (response_lines txt ! i) label \<longrightarrow> sel ?r = response_lines txt ! i)"
    by (simp add: field_table_def parse_response_def Let_def stored verbatim)
  have 2: "u \<noteq> [] \<and> CHR 0x0A \<notin> set u \<and> \<not> str_includes u ''Urgency: '' \<and>
      txt = ''Event Type: x\<newline>Subject: y\<newline>Deadline: none\<newline>'' @ u
        \<longrightarrow> urgency ?r = u"
  proof (intro impI, elim conjE)
    assume u: "u \<noteq> []" "CHR 0x0A \<notin> set u" and lab: "\<not> str_includes u ''Urgency: ''"
      and t: "txt = ''Event Type: x\<newline>Subject: y\<newline>Deadline: none\<newline>'' @ u"
    have rl: "response_lines txt = [''Event Type: x'', ''Subject: y'', ''Deadline: none'', u]"
      unfolding t by (rule response_lines_three_then) fact+
    show "urgency ?r = u"
      using u lab by (simp add: parse_response_def Let_def rl field_def replace_empty_absent)
  qed
  have 3: "u \<noteq> [] \<and> CHR 0x0A \<notin> set u \<and> \<not> str_includes u ''Importance: '' \<and>
      txt = ''Event Type: x\<newline>Subject: y\<newline>Deadline: none\<newline>Urgency: low\<newline>'' @ u
        \<longrightarrow> importance ?r = u"
  proof (intro impI, elim conjE)
    assume u: "u \<noteq> []" "CHR 0x0A \<notin> set u" and lab: "\<not> str_includes u ''Importance: ''"
      and t: "txt = ''Event Type: x\<newline>Subject: y\<newline>Deadline: none\<newline>Urgency: low\<newline>'' @ u"
    have rl: "response_lines txt =
        [''Event Type: x'', ''Subject: y'', ''Deadline: none'', ''Urgency: low'', u]"
      unfolding t by (rule response_lines_four_then) fact+
    show "importance ?r = u"
      using u lab by (simp add: parse_response_def Let_def rl field_def replace_empty_absent)
  qed
  show ?thesis using extract_Text[OF assms, of subj] 1 2 3 by simp
qed

theorem C10_witness:
  "generate (test_env (\<lambda>k. 0) (\<lambda>k. Text unlabeled_reply)) (model_calls start)
       (make_prompt ''Dear all'')
     = Text unlabeled_reply \<and>
   ''ASAP!!'' \<noteq> [] \<and> CHR 0x0A \<notin> set ''ASAP!!'' \<and> \<not> str_includes ''ASAP!!'' ''Urgency: '' \<and>
   (\<exists>r. fst (extractInfoWithGemini (test_env (\<lambda>k. 0) (\<lambda>k. Text unlabeled_reply))
               ''Dear all'' ''Hello'' start) = Inr r \<and>
      urgency r = ''ASAP!!'' \<and> urgency r \<notin> {''high'', ''medium'', ''low''})"
  using C10_fields_not_validated[of "test_env (\<lambda>k. 0) (\<lambda>k. Text unlabeled_reply)" start
      "''Dear all''" unlabeled_reply "''Hello''" "''ASAP!!''"]
  by (auto simp add: test_env_def unlabeled_reply_def)

subsection \<open>Classification\<close>

lemma trunc_div_le:
  "0 \<le> n \<Longrightarrow> trunc_div a msPerHour \<le> n \<longleftrightarrow> a < (n + 1) * msPerHour"
  unfolding trunc_div_def by (cases "0 \<le> a") (simp_all, linarith+)

lemma js_le_hours:
  "0 \<le> n \<Longrightarrow>
   js_le (differenceInHours (Some d) (Some now)) n \<longleftrightarrow> d - now < (n + 1) * msPerHour"
  by (simp add: js_le_def differenceInHours_def trunc_div_le)

text \<open>
  C1. With \<open>hoursLeft\<close> the whole hours from the reference instant (the clock reading
  the function takes) to the deadline, \<open>categorizeTask\<close> returns Urgent when
  \<open>hoursLeft <= 24\<close> or the urgency is \<open>high\<close>, else Important when \<open>hoursLeft <= 72\<close> or
  the importance is \<open>high\<close>, else Later; the first branch that holds decides. The hours
  are truncated towards zero, so \<open>hoursLeft <= 24\<close> means less than 25 hours left. A
  deadline that has passed gives Urgent, and so does a task that is urgent by time and
  of high importance.
\<close>

theorem C1_categorizeTask_cascade:
  "fst (categorizeTask e x dl w) =
     (if js_le (differenceInHours dl (Some (clock e (clock_reads w)))) 24 \<or> urgency x = ''high''
      then Urgent
      else if js_le (differenceInHours dl (Some (clock e (clock_reads w)))) 72
                \<or> importance x = ''high''
      then Important
      else Later) \<and>
   (\<forall>d. dl = Some d \<longrightarrow>
      (js_le (differenceInHours dl (Some (clock e (clock_reads w)))) 24
         \<longleftrightarrow> d - clock e (clock_reads w) < 25 * msPerHour) \<and>
      (js_le (differenceInHours dl (Some (clock e (clock_reads w)))) 72
         \<longleftrightarrow> d - clock e (clock_reads w) < 73 * msPerHour) \<and>
      (d < clock e (clock_reads w) \<longrightarrow> fst (categorizeTask e x dl w) = Urgent) \<and>
      (d - clock e (clock_reads w) < 25 * msPerHour \<and> importance x = ''high'' \<longrightarrow>
         fst (categorizeTask e x dl w) = Urgent))"
proof -
  have cascade: "fst (categorizeTask e x dl w) =
     (if js_le (differenceInHours dl (Some (clock e (clock_reads w)))) 24 \<or> urgency x = ''high''
      then Urgent
      else if js_le (differenceInHours dl (Some (clock e (clock_reads w)))) 72
                \<or> importance x = ''high''
      then Important
      else Later)"
    by (simp add: categorizeTask_def new_Date_def Let_def)
  have rest: "(js_le (differenceInHours (Some d) (Some (clock e (clock_reads w)))) 24
         \<longleftrightarrow> d - clock e (clock_reads w) < 25 * msPerHour) \<and>
      (js_le (differenceInHours (Some d) (Some (clock e (clock_reads w)))) 72
         \<longleftrightarrow> d - clock e (clock_reads w) < 73 * msPerHour)" for d
    using js_le_hours[of 24 d "clock e (clock_reads w)"]
      js_le_hours[of 72 d "clock e (clock_reads w)"]
    by simp
  show ?thesis
  proof (intro conjI allI impI)
    show "fst (categorizeTask e x dl w) =
     (if js_le (differenceInHours dl (Some (clock e (clock_reads w)))) 24 \<or> urgency x = ''high''
      then Urgent
      else if js_le (differenceInHours dl (Some (clock e (clock_reads w)))) 72
                \<or> importance x = ''high''
      then Important
      else Later)" by (rule cascade)
  next
    fix d assume "dl = Some d"
    then show "js_le (differenceInHours dl (Some (clock e (clock_reads w)))) 24
         \<longleftrightarrow> d - clock e (clock_reads w) < 25 * msPerHour" using rest[of d] by simp
  next
    fix d assume "dl = Some d"
    then show "js_le (differenceInHours dl (Some (clock e (clock_reads w)))) 72
         \<longleftrightarrow> d - clock e (clock_reads w) < 73 * msPerHour" using rest[of d] by simp
  next
    fix d assume "dl = Some d" "d < clock e (clock_reads w)"
    then show "fst (categorizeTask e x dl w) = Urgent"
      using rest[of d] cascade by simp
  next
    fix d assume "dl = Some d"
      "d - clock e (clock_reads w) < 25 * msPerHour \<and> importance x = ''high''"
    then show "fst (categorizeTask e x dl w) = Urgent"
      using rest[of d] cascade by simp
  qed
qed

theorem C1_witness:
  "(1749999999999 :: int) < clock (test_env (\<lambda>k. 1750000000000) (\<lambda>k. Text [])) (clock_reads start) \<and>
   fst (categorizeTask (test_env (\<lambda>k. 1750000000000) (\<lambda>k. Text [])) (fallback ''Hello'')
          (Some 1749999999999) start) = Urgent \<and>
   (1750000000000 + 48 * msPerHour) - clock (test_env (\<lambda>k. 1750000000000) (\<lambda>k. Text [])) (clock_reads start)
      < 73 * msPerHour \<and>
   fst (categorizeTask (test_env (\<lambda>k. 1750000000000) (\<lambda>k. Text [])) (fallback ''Hello'')
          (Some (1750000000000 + 48 * msPerHour)) start) = Important \<and>
   fst (categorizeTask (test_env (\<lambda>k. 1750000000000) (\<lambda>k. Text [])) (fallback ''Hello'')
          (Some (1750000000000 + 200 * msPerHour)) start) = Later"
  using C1_categorizeTask_cascade[of "test_env (\<lambda>k. 1750000000000) (\<lambda>k. Text [])"
      "fallback ''Hello''" "Some 1749999999999" start]
    C1_categorizeTask_cascade[of "test_env (\<lambda>k. 1750000000000) (\<lambda>k. Text [])"
      "fallback ''Hello''" "Some (1750000000000 + 48 * msPerHour)" start]
    C1_categorizeTask_cascade[of "test_env (\<lambda>k. 1750000000000) (\<lambda>k. Text [])"
      "fallback ''Hello''" "Some (1750000000000 + 200 * msPerHour)" start]
  by (simp add: test_env_def start_def fallback_def)

subsection \<open>The calendar\<close>

lemma century_bounds:
  "(0::int) \<le> doe \<Longrightarrow> doe \<le> 146096 \<Longrightarrow> c = min 3 (doe div 36524) \<Longrightarrow> r1 = doe - 36524 * c \<Longrightarrow>
   0 \<le> c \<and> c \<le> 3 \<and> 0 \<le> r1 \<and> r1 \<le> 36524"
  by (simp add: min_def) linarith

lemma cycle_bounds: "(0::int) \<le> r1 \<Longrightarrow> r1 \<le> 36524 \<Longrightarrow> 0 \<le> r1 div 1461 \<and> r1 div 1461 \<le> 24"
  by linarith

lemma year_bounds:
  "(0::int) \<le> r2 \<Longrightarrow> r2 \<le> 1460 \<Longrightarrow> k = min 3 (r2 div 365) \<Longrightarrow> doy = r2 - 365 * k \<Longrightarrow>
   0 \<le> k \<and> k \<le> 3 \<and> 0 \<le> doy \<and> doy \<le> 365"
  by (simp add: min_def) linarith

lemma month_bounds:
  "(0::int) \<le> doy \<Longrightarrow> doy \<le> 365 \<Longrightarrow> mp = (5 * doy + 2) div 153 \<Longrightarrow>
   dd = doy - (153 * mp + 2) div 5 + 1 \<Longrightarrow> 0 \<le> mp \<and> mp \<le> 11 \<and> 1 \<le> dd \<and> dd \<le> 31"
  by linarith

lemma yoe_facts:
  "(0::int) \<le> c \<Longrightarrow> c \<le> 3 \<Longrightarrow> 0 \<le> q \<Longrightarrow> q \<le> 24 \<Longrightarrow> 0 \<le> k \<Longrightarrow> k \<le> 3 \<Longrightarrow> yoe = 100 * c + 4 * q + k \<Longrightarrow>
   0 \<le> yoe \<and> yoe \<le> 399 \<and> yoe div 4 = 25 * c + q \<and> yoe div 100 = c"
  by linarith

lemma era_facts:
  "(0::int) \<le> yoe \<Longrightarrow> yoe \<le> 399 \<Longrightarrow> (400 * era + yoe) div 400 = era \<and> (400 * era + yoe) mod 400 = yoe"
  by simp

lemma civil_from_days_MakeDay:
  assumes civ: "civil_from_days d = (y, m, dd)"
  shows "MakeDay y m x = d + (x - dd) \<and> 0 \<le> m \<and> m \<le> 11 \<and> 1 \<le> dd \<and> dd \<le> 31
         \<and> 400 * ((d + 719468) div 146097) \<le> y \<and> y \<le> 400 * ((d + 719468) div 146097) + 400"
proof -
  define z where "z = d + 719468"
  define era where "era = z div 146097"
  define doe where "doe = z mod 146097"
  define c where "c = min 3 (doe div 36524)"
  define r1 where "r1 = doe - 36524 * c"
  define q where "q = r1 div 1461"
  define r2 where "r2 = r1 mod 1461"
  define k where "k = min 3 (r2 div 365)"
  define doy where "doy = r2 - 365 * k"
  define yoe where "yoe = 100 * c + 4 * q + k"
  define mp where "mp = (5 * doy + 2) div 153"
  have "civil_from_days d =
      (400 * era + yoe + (if (if mp < 10 then mp + 2 else mp - 10) \<le> 1 then 1 else 0),
       (if mp < 10 then mp + 2 else mp - 10), doy - (153 * mp + 2) div 5 + 1)"
    unfolding civil_from_days_def Let_def z_def era_def doe_def c_def r1_def q_def r2_def
      k_def doy_def yoe_def mp_def ..
  with civ have y: "y = 400 * era + yoe + (if (if mp < 10 then mp + 2 else mp - 10) \<le> 1 then 1 else 0)"
    and m: "m = (if mp < 10 then mp + 2 else mp - 10)"
    and dd: "dd = doy - (153 * mp + 2) div 5 + 1"
    by auto
  have doe: "0 \<le> doe" "doe \<le> 146096" by (simp_all add: doe_def)
  have zz: "z = 146097 * era + doe" by (simp add: era_def doe_def)
  from century_bounds[OF doe c_def r1_def]
  have c: "0 \<le> c" "c \<le> 3" and r1: "0 \<le> r1" "r1 \<le> 36524" by simp_all
  from cycle_bounds[OF r1] have q: "0 \<le> q" "q \<le> 24" by (simp_all add: q_def)
  have r12: "r1 = 1461 * q + r2" by (simp add: q_def r2_def)
  have r2: "0 \<le> r2" "r2 \<le> 1460" by (simp_all add: r2_def)
  from year_bounds[OF r2 k_def doy_def]
  have k: "0 \<le> k" "k \<le> 3" and doy: "0 \<le> doy" "doy \<le> 365" by simp_all
  from yoe_facts[OF c q k yoe_def]
  have yoe: "0 \<le> yoe" "yoe \<le> 399" and y4: "yoe div 4 = 25 * c + q" and y100: "yoe div 100 = c"
    by simp_all
  from month_bounds[OF doy mp_def dd]
  have mp: "0 \<le> mp" "mp \<le> 11" and ddrange: "1 \<le> dd" "dd \<le> 31" by simp_all
  have mrange: "0 \<le> m" "m \<le> 11" using mp m by (simp_all split: if_splits)
  have mdiv: "m div 12 = 0" "m mod 12 = m" using mrange by simp_all
  have yy: "y - (if m \<le> 1 then 1 else 0) = 400 * era + yoe" using y m by simp
  from era_facts[OF yoe]
  have ydiv: "(400 * era + yoe) div 400 = era" and ymod: "(400 * era + yoe) mod 400 = yoe"
    by simp_all
  have mpm: "(if 2 \<le> m then m - 2 else m + 10) = mp" using mp m by (simp split: if_splits)
  define Y where "Y = y - (if m \<le> 1 then 1 else 0)"
  have YY: "Y = 400 * era + yoe" using yy by (simp add: Y_def)
  have "MakeDay y m x = 146097 * (Y div 400) + (365 * (Y mod 400) + (Y mod 400) div 4
      - (Y mod 400) div 100 + (153 * (if 2 \<le> m then m - 2 else m + 10) + 2) div 5) - 719468 + (x - 1)"
    unfolding Y_def by (simp add: MakeDay_def Let_def mdiv)
  also have "\<dots> = 146097 * era + (365 * yoe + yoe div 4 - yoe div 100 + (153 * mp + 2) div 5) - 719468 + (x - 1)"
    unfolding YY ydiv ymod mpm ..
  also have "\<dots> = d + (x - dd)"
    unfolding y4 y100 using zz r12 dd
    by (simp add: doy_def r1_def yoe_def z_def)
  finally have md: "MakeDay y m x = d + (x - dd)" .
  have yb: "400 * era \<le> y" "y \<le> 400 * era + 400" using y yoe by (simp_all split: if_splits)
  show ?thesis using md mrange ddrange yb by (simp add: era_def z_def)
qed

lemma MakeDay_of_time: "MakeDay (YearFromTime t) (MonthFromTime t) (DateFromTime t + n) = Day t + n"
proof -
  obtain y m dd where civ: "civil_from_days (Day t) = (y, m, dd)" by (cases "civil_from_days (Day t)")
  from civil_from_days_MakeDay[OF civ, of "dd + n"] civ show ?thesis
    by (simp add: YearFromTime_def MonthFromTime_def DateFromTime_def)
qed

lemma MakeDate_Day: "MakeDate (Day t + n) (TimeWithinDay t) = t + n * msPerDay"
  by (simp add: MakeDate_def Day_def TimeWithinDay_def algebra_simps)

lemma setDate_getDate: "setDate e t (getDate e t + n) = TimeClip (t + n * msPerDay)"
  by (simp add: setDate_def getDate_def Let_def MakeDay_of_time MakeDate_Day LocalTime_def UTC_def)

lemma addDays_eq: "n \<noteq> 0 \<Longrightarrow> addDays e t n = TimeClip (t + n * msPerDay)"
  by (simp add: addDays_def setDate_getDate)



subsection \<open>The branches of parseDeadline\<close>




lemma parseDeadline_today:
  "trim (toLowerCase s) = ''today'' \<Longrightarrow>
   fst (parseDeadline e s w) =
     Date_local e (getFullYear e (clock e (clock_reads w))) (getMonth e (clock e (clock_reads w)))
       (getDate e (clock e (clock_reads w))) 23 59 59"
  by (simp add: parseDeadline_def new_Date_def Let_def)

lemma parseDeadline_tomorrow:
  "trim (toLowerCase s) = ''tomorrow'' \<Longrightarrow>
   fst (parseDeadline e s w) = TimeClip (clock e (clock_reads w) + msPerDay)"
  using addDays_eq[of 1 e] by (simp add: parseDeadline_def new_Date_def Let_def)

lemma parseDeadline_day_after:
  "trim (toLowerCase s) = ''day after tomorrow'' \<Longrightarrow>
   fst (parseDeadline e s w) = TimeClip (clock e (clock_reads w) + 2 * msPerDay)"
  using addDays_eq[of 2 e] by (simp add: parseDeadline_def new_Date_def Let_def)

lemma parseDeadline_none:
  "trim (toLowerCase s) = ''none'' \<Longrightarrow>
   fst (parseDeadline e s w) = TimeClip (clock e (clock_reads w) + 7 * msPerDay)"
  using addDays_eq[of 7 e] by (simp add: parseDeadline_def new_Date_def Let_def)

lemma parseDeadline_other:
  "trim (toLowerCase s) \<notin> {''today'', ''tomorrow'', ''day after tomorrow'', ''none''} \<Longrightarrow>
   fst (parseDeadline e s w) =
     (case match_within (trim (toLowerCase s)) of
        Some ds \<Rightarrow> addHours (clock e (clock_reads w)) (parseInt ds)
      | None \<Rightarrow>
          (case try_formats e (trim (toLowerCase s)) (clock e (clock_reads w)) formats of
             Some d \<Rightarrow> d
           | None \<Rightarrow> TimeClip (clock e (clock_reads w) + 7 * msPerDay)))"
  by (simp add: parseDeadline_def new_Date_def Let_def addDays_eq split: option.splits)

lemma parseDeadline_world:
  "snd (parseDeadline e s w) = w\<lparr>clock_reads := Suc (clock_reads w)\<rparr>"
  by (simp add: parseDeadline_def new_Date_def Let_def)


lemma literals_norm:
  "trim (toLowerCase ''none'') = ''none''"
  "trim (toLowerCase ''today'') = ''today''"
  by (simp_all add: trim_def toLowerCase_def toLowerCase_char_def is_space_def)

subsection \<open>The pattern within N hours\<close>

lemma within_at_iff:
  "within_at s = Some ds \<longleftrightarrow>
     ds \<noteq> [] \<and> list_all is_digit ds \<and> (\<exists>post. s = ''within '' @ ds @ '' hours'' @ post)"
proof
  assume a: "within_at s = Some ds"
  define r where "r = drop 7 s"
  define rest where "rest = dropWhile is_digit r"
  from a have t7: "take 7 s = ''within ''"
    by (simp add: within_at_def split: if_splits)
  with a have ds: "ds = takeWhile is_digit r" "ds \<noteq> []" and t6: "take 6 rest = '' hours''"
    by (auto simp add: within_at_def Let_def r_def rest_def split: if_splits)
  have "s = take 7 s @ r" by (simp add: r_def)
  also have "r = ds @ rest" by (simp add: ds rest_def)
  also have "rest = take 6 rest @ drop 6 rest" by simp
  finally have "s = ''within '' @ ds @ '' hours'' @ drop 6 rest" unfolding t7 t6 .
  moreover have "list_all is_digit ds"
    unfolding ds list_all_iff using set_takeWhileD by fastforce
  ultimately show "ds \<noteq> [] \<and> list_all is_digit ds \<and> (\<exists>post. s = ''within '' @ ds @ '' hours'' @ post)"
    using ds(2) by blast
next
  assume "ds \<noteq> [] \<and> list_all is_digit ds \<and> (\<exists>post. s = ''within '' @ ds @ '' hours'' @ post)"
  then obtain post where ds: "ds \<noteq> []" "list_all is_digit ds"
    and s: "s = ''within '' @ ds @ '' hours'' @ post" by blast
  have nd: "\<not> is_digit (CHR '' '')" by (simp add: is_digit_def)
  have d7: "drop 7 s = ds @ CHR '' '' # (''hours'' @ post)" by (simp add: s)
  have tw: "takeWhile is_digit (ds @ CHR '' '' # (''hours'' @ post)) = ds"
    using ds(2) nd by (simp add: list_all_iff takeWhile_tail)
  have dw: "dropWhile is_digit (ds @ CHR '' '' # (''hours'' @ post)) = CHR '' '' # (''hours'' @ post)"
    using ds(2) nd by (simp add: list_all_iff dropWhile_append1 dropWhile_append2)
  have t7: "take 7 s = ''within ''" by (simp add: s)
  show "within_at s = Some ds"
    unfolding within_at_def Let_def d7 tw dw t7 using ds(1) by simp
qed


lemma match_within_first:
  "within_at (drop i s) = Some ds \<Longrightarrow> (\<forall>j<i. within_at (drop j s) = None) \<Longrightarrow>
   match_within s = Some ds"
proof (induction s arbitrary: i)
  case Nil
  then show ?case by (simp add: within_at_def)
next
  case (Cons c cs)
  show ?case
  proof (cases i)
    case 0
    with Cons.prems show ?thesis by simp
  next
    case (Suc k)
    with Cons.prems have h: "within_at (c # cs) = None" by auto
    from Cons.prems Suc have "within_at (drop k cs) = Some ds" by simp
    moreover have "\<forall>j<k. within_at (drop j cs) = None"
    proof (intro allI impI)
      fix j assume "j < k"
      with Cons.prems(2)[rule_format, of "Suc j"] Suc show "within_at (drop j cs) = None" by simp
    qed
    ultimately have "match_within cs = Some ds" by (rule Cons.IH)
    with h show ?thesis by simp
  qed
qed


lemma earlier_within_iff:
  "(\<exists>pre ds post. length pre < n \<and> s = pre @ ''within '' @ ds @ '' hours'' @ post
        \<and> ds \<noteq> [] \<and> list_all is_digit ds)
     \<longleftrightarrow> (\<exists>j<n. within_at (drop j s) \<noteq> None)"
proof
  assume "\<exists>pre ds post. length pre < n \<and> s = pre @ ''within '' @ ds @ '' hours'' @ post
        \<and> ds \<noteq> [] \<and> list_all is_digit ds"
  then obtain pre ds post where n: "length pre < n" and s: "s = pre @ ''within '' @ ds @ '' hours'' @ post"
    and ds: "ds \<noteq> []" "list_all is_digit ds" by blast
  have "drop (length pre) s = ''within '' @ ds @ '' hours'' @ post" unfolding s by simp
  with ds have "within_at (drop (length pre) s) = Some ds" unfolding within_at_iff by blast
  with n show "\<exists>j<n. within_at (drop j s) \<noteq> None" by auto
next
  assume "\<exists>j<n. within_at (drop j s) \<noteq> None"
  then obtain j ds where j: "j < n" and w: "within_at (drop j s) = Some ds" by auto
  then obtain post where ds: "ds \<noteq> []" "list_all is_digit ds"
    and d: "drop j s = ''within '' @ ds @ '' hours'' @ post"
    unfolding within_at_iff by blast
  have "s = take j s @ drop j s" by simp
  then have "s = take j s @ ''within '' @ ds @ '' hours'' @ post" unfolding d .
  moreover have "length (take j s) < n" using j by simp
  ultimately show "\<exists>pre ds post. length pre < n \<and> s = pre @ ''within '' @ ds @ '' hours'' @ post
        \<and> ds \<noteq> [] \<and> list_all is_digit ds" using ds by blast
qed

lemma literals_no_within:
  "match_within ''today'' = None" "match_within ''tomorrow'' = None"
  "match_within ''day after tomorrow'' = None" "match_within ''none'' = None"
  by (simp_all add: within_at_def)

subsection \<open>Deadlines\<close>

lemma ex_less_Suc_shift: "(\<exists>j<Suc n. P j) \<longleftrightarrow> P 0 \<or> (\<exists>j<n. P (Suc j))"
  by (metis less_Suc_eq_0_disj)





text \<open>
  C9. When the lowercased, trimmed text contains \<open>within N hours\<close> anywhere, with
  \<open>N\<close> one or more digits, it is none of the four phrases and the result is the
  reference instant plus \<open>N\<close> hours for the first occurrence; the date formats are
  never tried, so whatever date-fns would parse makes no difference.
\<close>

theorem C9_within_unanchored:
  assumes "trim (toLowerCase s) = pre @ ''within '' @ ds @ '' hours'' @ post"
    and "ds \<noteq> []" and "list_all is_digit ds"
    and "\<not> (\<exists>pre' ds' post'. length pre' < length pre \<and>
              trim (toLowerCase s) = pre' @ ''within '' @ ds' @ '' hours'' @ post' \<and>
              ds' \<noteq> [] \<and> list_all is_digit ds')"
  shows "trim (toLowerCase s) \<notin> {''today'', ''tomorrow'', ''day after tomorrow'', ''none''} \<and>
     fst (parseDeadline e s w) = TimeClip (clock e (clock_reads w) + parseInt ds * msPerHour) \<and>
     fst (parseDeadline e s w) = addHours (clock e (clock_reads w)) (parseInt ds) \<and>
     (\<forall>p. fst (parseDeadline (e\<lparr>date_fns_parse := p\<rparr>) s w) = fst (parseDeadline e s w))"
proof -
  let ?n = "trim (toLowerCase s)"
  have at: "within_at (drop (length pre) ?n) = Some ds"
    unfolding within_at_iff assms(1) using assms(2,3) by simp
  have none: "\<forall>j<length pre. within_at (drop j ?n) = None"
    using assms(4) unfolding earlier_within_iff by simp
  from match_within_first[OF at none] have m: "match_within ?n = Some ds" .
  have lit: "?n \<notin> {''today'', ''tomorrow'', ''day after tomorrow'', ''none''}"
    using m literals_no_within by auto
  have r: "fst (parseDeadline e' s w) = addHours (clock e' (clock_reads w)) (parseInt ds)" for e'
    unfolding parseDeadline_other[OF lit] m by simp
  have "\<forall>p. fst (parseDeadline (e\<lparr>date_fns_parse := p\<rparr>) s w) = fst (parseDeadline e s w)"
    unfolding r by simp
  then show ?thesis using lit r[of e] by (simp add: addHours_def)
qed

theorem C9_witness:
  "trim (toLowerCase ''Please respond WITHIN 2 hours today'')
      = ''please respond '' @ ''within '' @ ''2'' @ '' hours'' @ '' today'' \<and>
   ''2'' \<noteq> [] \<and> list_all is_digit ''2'' \<and>
   \<not> (\<exists>pre' ds' post'. length pre' < length ''please respond '' \<and>
         trim (toLowerCase ''Please respond WITHIN 2 hours today'')
            = pre' @ ''within '' @ ds' @ '' hours'' @ post' \<and>
         ds' \<noteq> [] \<and> list_all is_digit ds') \<and>
   fst (parseDeadline ((test_env (\<lambda>k. 1750000000000) (\<lambda>k. Text []))\<lparr>date_fns_parse := iso_date_parse\<rparr>)
          ''Please respond WITHIN 2 hours today'' start)
     = Some (1750000000000 + 2 * msPerHour)"
proof -
  let ?E' = "(test_env (\<lambda>k. 1750000000000) (\<lambda>k. Text []))\<lparr>date_fns_parse := iso_date_parse\<rparr>"
  have n: "trim (toLowerCase ''Please respond WITHIN 2 hours today'')
      = ''please respond '' @ ''within '' @ ''2'' @ '' hours'' @ '' today''"
    by (simp add: trim_def toLowerCase_def toLowerCase_char_def is_space_def)
  have d: "''2'' \<noteq> []" "list_all is_digit ''2''" by (simp_all add: is_digit_def)
  have f: "\<not> (\<exists>pre' ds' post'. length pre' < length ''please respond '' \<and>
         trim (toLowerCase ''Please respond WITHIN 2 hours today'')
            = pre' @ ''within '' @ ds' @ '' hours'' @ post' \<and>
         ds' \<noteq> [] \<and> list_all is_digit ds')"
    unfolding earlier_within_iff n
    by (simp add: ex_less_Suc_shift within_at_def)
  have v: "parseInt ''2'' = 2" by (simp add: parseInt_def digit_value_def)
  from C9_within_unanchored[OF n d f, of ?E' start]
  have "fst (parseDeadline ?E' ''Please respond WITHIN 2 hours today'' start)
      = TimeClip (clock ?E' (clock_reads start) + parseInt ''2'' * msPerHour)"
    by blast
  then have "fst (parseDeadline ?E' ''Please respond WITHIN 2 hours today'' start)
      = Some (1750000000000 + 2 * msPerHour)"
    unfolding v by (simp add: test_env_def start_def TimeClip_def)
  with n d f show ?thesis by blast
qed

subsection \<open>Decimal digits\<close>

lemma digit_cases: "(0::int) \<le> n \<Longrightarrow> n < 10 \<Longrightarrow> n \<in> {0, 1, 2, 3, 4, 5, 6, 7, 8, 9}"
  by simp arith

lemma digit_char_props:
  assumes "0 \<le> n" "n < 10"
  shows "is_digit (digit_char n) \<and> digit_value (digit_char n) = n
         \<and> digit_char n \<noteq> CHR ''+'' \<and> digit_char n \<noteq> CHR ''-''"
proof -
  from digit_cases[OF assms] show ?thesis
    by (auto simp add: digit_char_def is_digit_def digit_value_def)
qed

lemma parseInt_digit_chars:
  "list_all (\<lambda>d. 0 \<le> d \<and> d < 10) ns \<Longrightarrow>
   foldl (\<lambda>a c. 10 * a + digit_value c) acc (map digit_char ns)
     = foldl (\<lambda>a d. 10 * a + d) acc ns"
proof (induction ns arbitrary: acc)
  case Nil
  show ?case by simp
next
  case (Cons d ds)
  then have d: "digit_value (digit_char d) = d" and ds: "list_all (\<lambda>d. 0 \<le> d \<and> d < 10) ds"
    using digit_char_props[of d] by simp_all
  from Cons.IH[OF ds, of "10 * acc + d"] show ?case by (simp add: d)
qed

lemma digits_int_digit_chars:
  assumes "list_all (\<lambda>d. 0 \<le> d \<and> d < 10) ns" "ns \<noteq> []"
  shows "digits_int (map digit_char ns) = Some (foldl (\<lambda>a d. 10 * a + d) 0 ns)"
proof -
  have "list_all is_digit (map digit_char ns)"
    using assms(1) digit_char_props by (induction ns) simp_all
  then show ?thesis
    using assms(2) parseInt_digit_chars[OF assms(1), of 0]
    by (simp add: digits_int_def parseInt_def)
qed

lemma e_gen: "0 < m \<Longrightarrow> (n::int) div m = 10 * (n div (m * 10)) + n div m mod 10"
proof -
  assume "0 < m"
  then have h: "n div (m * 10) = n div m div 10" by (intro zdiv_zmult2_eq) simp
  show ?thesis unfolding h by (rule mult_div_mod_eq[symmetric])
qed

lemma horner2:
  "a0 = 10 * a1 + b0 \<Longrightarrow> a1 = b1 \<Longrightarrow>
   10 * (b1) + b0 = (a0::int)"
  by simp

lemma decimal2:
  assumes "0 \<le> (n::int)" "n < 100"
  shows "10 * (n div 10 mod 10) + (n mod 10) = n"
proof -
  have "n div 10 < 10" using assms by linarith
  moreover have "0 \<le> n div 10" using assms by simp
  ultimately have top: "n div 10 = n div 10 mod 10" by simp
  have e0: "n = 10 * (n div 10) + n mod 10" by (rule mult_div_mod_eq[symmetric])
  show ?thesis by (rule horner2[OF e0 top])
qed

lemma digits_int_pad2: "0 \<le> n \<Longrightarrow> n < 100 \<Longrightarrow> digits_int (pad2 n) = Some n"
proof -
  assume n: "0 \<le> n" "n < 100"
  have ok: "list_all (\<lambda>d. 0 \<le> d \<and> d < 10) [n div 10 mod 10, n mod 10]" by simp
  have v: "foldl (\<lambda>a d. 10 * a + d) 0 [n div 10 mod 10, n mod 10] = n"
    by (simp only: foldl.simps mult_zero_right add_0 decimal2[OF n])
  have p: "pad2 n = map digit_char [n div 10 mod 10, n mod 10]"
    by (simp add: pad2_def pad3_def pad4_def pad6_def)
  have d: "digits_int (map digit_char [n div 10 mod 10, n mod 10])
      = Some (foldl (\<lambda>a d. 10 * a + d) 0 [n div 10 mod 10, n mod 10])"
    by (rule digits_int_digit_chars[OF ok]) simp
  show ?thesis by (simp only: p d v)
qed

lemma horner3:
  "a0 = 10 * a1 + b0 \<Longrightarrow> a1 = 10 * a2 + b1 \<Longrightarrow> a2 = b2 \<Longrightarrow>
   10 * (10 * (b2) + b1) + b0 = (a0::int)"
  by simp

lemma decimal3:
  assumes "0 \<le> (n::int)" "n < 1000"
  shows "10 * (10 * (n div 100 mod 10) + (n div 10 mod 10)) + (n mod 10) = n"
proof -
  have "n div 100 < 10" using assms by linarith
  moreover have "0 \<le> n div 100" using assms by simp
  ultimately have top: "n div 100 = n div 100 mod 10" by simp
  have e0: "n = 10 * (n div 10) + n mod 10" by (rule mult_div_mod_eq[symmetric])
  have e1: "n div 10 = 10 * (n div 100) + n div 10 mod 10" using e_gen[of 10 n] by simp
  show ?thesis by (rule horner3[OF e0 e1 top])
qed

lemma digits_int_pad3: "0 \<le> n \<Longrightarrow> n < 1000 \<Longrightarrow> digits_int (pad3 n) = Some n"
proof -
  assume n: "0 \<le> n" "n < 1000"
  have ok: "list_all (\<lambda>d. 0 \<le> d \<and> d < 10) [n div 100 mod 10, n div 10 mod 10, n mod 10]" by simp
  have v: "foldl (\<lambda>a d. 10 * a + d) 0 [n div 100 mod 10, n div 10 mod 10, n mod 10] = n"
    by (simp only: foldl.simps mult_zero_right add_0 decimal3[OF n])
  have p: "pad3 n = map digit_char [n div 100 mod 10, n div 10 mod 10, n mod 10]"
    by (simp add: pad2_def pad3_def pad4_def pad6_def)
  have d: "digits_int (map digit_char [n div 100 mod 10, n div 10 mod 10, n mod 10])
      = Some (foldl (\<lambda>a d. 10 * a + d) 0 [n div 100 mod 10, n div 10 mod 10, n mod 10])"
    by (rule digits_int_digit_chars[OF ok]) simp
  show ?thesis by (simp only: p d v)
qed

lemma horner4:
  "a0 = 10 * a1 + b0 \<Longrightarrow> a1 = 10 * a2 + b1 \<Longrightarrow> a2 = 10 * a3 + b2 \<Longrightarrow> a3 = b3 \<Longrightarrow>
   10 * (10 * (10 * (b3) + b2) + b1) + b0 = (a0::int)"
  by simp

lemma decimal4:
  assumes "0 \<le> (n::int)" "n < 10000"
  shows "10 * (10 * (10 * (n div 1000 mod 10) + (n div 100 mod 10)) + (n div 10 mod 10)) + (n mod 10) = n"
proof -
  have "n div 1000 < 10" using assms by linarith
  moreover have "0 \<le> n div 1000" using assms by simp
  ultimately have top: "n div 1000 = n div 1000 mod 10" by simp
  have e0: "n = 10 * (n div 10) + n mod 10" by (rule mult_div_mod_eq[symmetric])
  have e1: "n div 10 = 10 * (n div 100) + n div 10 mod 10" using e_gen[of 10 n] by simp
  have e2: "n div 100 = 10 * (n div 1000) + n div 100 mod 10" using e_gen[of 100 n] by simp
  show ?thesis by (rule horner4[OF e0 e1 e2 top])
qed

lemma digits_int_pad4: "0 \<le> n \<Longrightarrow> n < 10000 \<Longrightarrow> digits_int (pad4 n) = Some n"
proof -
  assume n: "0 \<le> n" "n < 10000"
  have ok: "list_all (\<lambda>d. 0 \<le> d \<and> d < 10) [n div 1000 mod 10, n div 100 mod 10, n div 10 mod 10, n mod 10]" by simp
  have v: "foldl (\<lambda>a d. 10 * a + d) 0 [n div 1000 mod 10, n div 100 mod 10, n div 10 mod 10, n mod 10] = n"
    by (simp only: foldl.simps mult_zero_right add_0 decimal4[OF n])
  have p: "pad4 n = map digit_char [n div 1000 mod 10, n div 100 mod 10, n div 10 mod 10, n mod 10]"
    by (simp add: pad2_def pad3_def pad4_def pad6_def)
  have d: "digits_int (map digit_char [n div 1000 mod 10, n div 100 mod 10, n div 10 mod 10, n mod 10])
      = Some (foldl (\<lambda>a d. 10 * a + d) 0 [n div 1000 mod 10, n div 100 mod 10, n div 10 mod 10, n mod 10])"
    by (rule digits_int_digit_chars[OF ok]) simp
  show ?thesis by (simp only: p d v)
qed

lemma horner6:
  "a0 = 10 * a1 + b0 \<Longrightarrow> a1 = 10 * a2 + b1 \<Longrightarrow> a2 = 10 * a3 + b2 \<Longrightarrow> a3 = 10 * a4 + b3 \<Longrightarrow> a4 = 10 * a5 + b4 \<Longrightarrow> a5 = b5 \<Longrightarrow>
   10 * (10 * (10 * (10 * (10 * (b5) + b4) + b3) + b2) + b1) + b0 = (a0::int)"
  by simp

lemma decimal6:
  assumes "0 \<le> (n::int)" "n < 1000000"
  shows "10 * (10 * (10 * (10 * (10 * (n div 100000 mod 10) + (n div 10000 mod 10)) + (n div 1000 mod 10)) + (n div 100 mod 10)) + (n div 10 mod 10)) + (n mod 10) = n"
proof -
  have "n div 100000 < 10" using assms by linarith
  moreover have "0 \<le> n div 100000" using assms by simp
  ultimately have top: "n div 100000 = n div 100000 mod 10" by simp
  have e0: "n = 10 * (n div 10) + n mod 10" by (rule mult_div_mod_eq[symmetric])
  have e1: "n div 10 = 10 * (n div 100) + n div 10 mod 10" using e_gen[of 10 n] by simp
  have e2: "n div 100 = 10 * (n div 1000) + n div 100 mod 10" using e_gen[of 100 n] by simp
  have e3: "n div 1000 = 10 * (n div 10000) + n div 1000 mod 10" using e_gen[of 1000 n] by simp
  have e4: "n div 10000 = 10 * (n div 100000) + n div 10000 mod 10" using e_gen[of 10000 n] by simp
  show ?thesis by (rule horner6[OF e0 e1 e2 e3 e4 top])
qed

lemma digits_int_pad6: "0 \<le> n \<Longrightarrow> n < 1000000 \<Longrightarrow> digits_int (pad6 n) = Some n"
proof -
  assume n: "0 \<le> n" "n < 1000000"
  have ok: "list_all (\<lambda>d. 0 \<le> d \<and> d < 10) [n div 100000 mod 10, n div 10000 mod 10, n div 1000 mod 10, n div 100 mod 10, n div 10 mod 10, n mod 10]" by simp
  have v: "foldl (\<lambda>a d. 10 * a + d) 0 [n div 100000 mod 10, n div 10000 mod 10, n div 1000 mod 10, n div 100 mod 10, n div 10 mod 10, n mod 10] = n"
    by (simp only: foldl.simps mult_zero_right add_0 decimal6[OF n])
  have p: "pad6 n = map digit_char [n div 100000 mod 10, n div 10000 mod 10, n div 1000 mod 10, n div 100 mod 10, n div 10 mod 10, n mod 10]"
    by (simp add: pad2_def pad3_def pad4_def pad6_def)
  have d: "digits_int (map digit_char [n div 100000 mod 10, n div 10000 mod 10, n div 1000 mod 10, n div 100 mod 10, n div 10 mod 10, n mod 10])
      = Some (foldl (\<lambda>a d. 10 * a + d) 0 [n div 100000 mod 10, n div 10000 mod 10, n div 1000 mod 10, n div 100 mod 10, n div 10 mod 10, n mod 10])"
    by (rule digits_int_digit_chars[OF ok]) simp
  show ?thesis by (simp only: p d v)
qed

subsection \<open>The interchange string\<close>

lemma time_fields:
  "0 \<le> HourFromTime t \<and> HourFromTime t \<le> 23 \<and> 0 \<le> MinFromTime t \<and> MinFromTime t \<le> 59 \<and>
   0 \<le> SecFromTime t \<and> SecFromTime t \<le> 59 \<and> 0 \<le> msFromTime t \<and> msFromTime t \<le> 999 \<and>
   MakeTime (HourFromTime t) (MinFromTime t) (SecFromTime t) (msFromTime t) = TimeWithinDay t"
proof -
  have a: "t mod (msPerHour * 24) = msPerHour * (t div msPerHour mod 24) + t mod msPerHour"
    by (rule zmod_zmult2_eq) simp
  have b: "t mod (msPerMinute * 60) = msPerMinute * (t div msPerMinute mod 60) + t mod msPerMinute"
    by (rule zmod_zmult2_eq) simp
  have c: "t mod (msPerSecond * 60) = msPerSecond * (t div msPerSecond mod 60) + t mod msPerSecond"
    by (rule zmod_zmult2_eq) simp
  have a': "t mod msPerDay = msPerHour * (t div msPerHour mod 24) + t mod msPerHour"
    using a by simp
  have b': "t mod msPerHour = msPerMinute * (t div msPerMinute mod 60) + t mod msPerMinute"
    using b by simp
  have c': "t mod msPerMinute = msPerSecond * (t div msPerSecond mod 60) + t mod msPerSecond"
    using c by simp
  have r: "0 \<le> t mod msPerHour" "t mod msPerHour < msPerHour" by simp_all
  have h: "(t mod msPerDay) div msPerHour = t div msPerHour mod 24"
    unfolding a' using r by simp
  have hr: "0 \<le> t div msPerHour mod 24" "t div msPerHour mod 24 \<le> 23" by simp_all
  have mr: "0 \<le> t div msPerMinute mod 60" "t div msPerMinute mod 60 \<le> 59" by simp_all
  have sr: "0 \<le> t div msPerSecond mod 60" "t div msPerSecond mod 60 \<le> 59" by simp_all
  have xr: "0 \<le> t mod msPerSecond" "t mod msPerSecond \<le> 999" by simp_all
  show ?thesis
    unfolding HourFromTime_def MinFromTime_def SecFromTime_def msFromTime_def TimeWithinDay_def
      MakeTime_def h
    using hr mr sr xr a' b' c' by simp
qed

lemma MakeDate_parts: "MakeDate (Day t) (TimeWithinDay t) = t"
  by (simp add: MakeDate_def Day_def TimeWithinDay_def)

lemma year_range:
  assumes "\<bar>t\<bar> \<le> 8640000000000000"
  shows "- 999999 \<le> YearFromTime t \<and> YearFromTime t \<le> 999999"
proof -
  obtain y m d where civ: "civil_from_days (Day t) = (y, m, d)" by (cases "civil_from_days (Day t)")
  have d: "- 100000000 \<le> Day t" "Day t \<le> 100000000" using assms unfolding Day_def by linarith+
  have e: "- 680 \<le> (Day t + 719468) div 146097" "(Day t + 719468) div 146097 \<le> 690"
    using d by linarith+
  from civil_from_days_MakeDay[OF civ, of 0] e have "- 999999 \<le> y \<and> y \<le> 999999" by linarith
  then show ?thesis by (simp add: YearFromTime_def civ)
qed

lemma Date_parse_four:
  assumes "digits_int [y3, y2, y1, y0] = Some y" "y3 \<noteq> CHR ''+''" "y3 \<noteq> CHR ''-''"
    and "digits_int [m1, m0] = Some mo" "digits_int [d1, d0] = Some d"
    and "digits_int [h1, h0] = Some h" "digits_int [i1, i0] = Some mi"
    and "digits_int [s1, s0] = Some sec" "digits_int [x2, x1, x0] = Some ms"
    and "1 \<le> mo" "mo \<le> 12" "1 \<le> d" "d \<le> 31" "h \<le> 23" "mi \<le> 59" "sec \<le> 59"
  shows "Date_parse ([y3, y2, y1, y0] @ ''-'' @ [m1, m0] @ ''-'' @ [d1, d0] @ ''T'' @ [h1, h0] @ '':''
           @ [i1, i0] @ '':'' @ [s1, s0] @ ''.'' @ [x2, x1, x0] @ ''Z'')
         = TimeClip (MakeDate (MakeDay y (mo - 1) d) (MakeTime h mi sec ms))"
  using assms by (simp add: Date_parse_def)

lemma Date_parse_six:
  assumes "digits_int [y5, y4, y3, y2, y1, y0] = Some y" "sg = CHR ''+'' \<or> sg = CHR ''-''"
    and "digits_int [m1, m0] = Some mo" "digits_int [d1, d0] = Some d"
    and "digits_int [h1, h0] = Some h" "digits_int [i1, i0] = Some mi"
    and "digits_int [s1, s0] = Some sec" "digits_int [x2, x1, x0] = Some ms"
    and "1 \<le> mo" "mo \<le> 12" "1 \<le> d" "d \<le> 31" "h \<le> 23" "mi \<le> 59" "sec \<le> 59"
  shows "Date_parse (sg # [y5, y4, y3, y2, y1, y0] @ ''-'' @ [m1, m0] @ ''-'' @ [d1, d0] @ ''T'' @ [h1, h0] @ '':''
           @ [i1, i0] @ '':'' @ [s1, s0] @ ''.'' @ [x2, x1, x0] @ ''Z'')
         = TimeClip (MakeDate (MakeDay ((if sg = CHR ''+'' then 1 else - 1) * y) (mo - 1) d) (MakeTime h mi sec ms))"
  using assms by (auto simp add: Date_parse_def)

lemma toISOString_round_trip:
  assumes valid: "\<bar>t\<bar> \<le> 8640000000000000"
  shows "\<exists>s. toISOString (Some t) = Inr s \<and> Date_parse s = Some t"
proof -
  obtain y m d where civ: "civil_from_days (Day t) = (y, m, d)" by (cases "civil_from_days (Day t)")
  from civil_from_days_MakeDay[OF civ, of d]
  have md: "MakeDay y m d = Day t" and mr: "0 \<le> m" "m \<le> 11" and dr: "1 \<le> d" "d \<le> 31"
    by simp_all
  have Y: "YearFromTime t = y" and M: "MonthFromTime t = m" and D: "DateFromTime t = d"
    by (simp_all add: YearFromTime_def MonthFromTime_def DateFromTime_def civ)
  from year_range[OF valid] have yr: "- 999999 \<le> y" "y \<le> 999999" by (simp_all add: Y)
  define h where "h = HourFromTime t"
  define mi where "mi = MinFromTime t"
  define sec where "sec = SecFromTime t"
  define ms where "ms = msFromTime t"
  from time_fields[of t]
  have hr: "0 \<le> h" "h \<le> 23" and mir: "0 \<le> mi" "mi \<le> 59" and sr: "0 \<le> sec" "sec \<le> 59"
    and msr: "0 \<le> ms" "ms \<le> 999" and mt: "MakeTime h mi sec ms = TimeWithinDay t"
    by (simp_all add: h_def mi_def sec_def ms_def)
  have rebuilt: "TimeClip (MakeDate (MakeDay y (m + 1 - 1) d) (MakeTime h mi sec ms)) = Some t"
    using valid by (simp add: md mt MakeDate_parts TimeClip_def)
  have dm: "digits_int [digit_char ((m + 1) div 10 mod 10), digit_char ((m + 1) mod 10)] = Some (m + 1)"
    using digits_int_pad2[of "m + 1"] mr by (simp add: pad2_def)
  have dd: "digits_int [digit_char (d div 10 mod 10), digit_char (d mod 10)] = Some d"
    using digits_int_pad2[of d] dr by (simp add: pad2_def)
  have dh: "digits_int [digit_char (h div 10 mod 10), digit_char (h mod 10)] = Some h"
    using digits_int_pad2[of h] hr by (simp add: pad2_def)
  have dmi: "digits_int [digit_char (mi div 10 mod 10), digit_char (mi mod 10)] = Some mi"
    using digits_int_pad2[of mi] mir by (simp add: pad2_def)
  have ds: "digits_int [digit_char (sec div 10 mod 10), digit_char (sec mod 10)] = Some sec"
    using digits_int_pad2[of sec] sr by (simp add: pad2_def)
  have dms: "digits_int [digit_char (ms div 100 mod 10), digit_char (ms div 10 mod 10),
                         digit_char (ms mod 10)] = Some ms"
    using digits_int_pad3[of ms] msr by (simp add: pad3_def)
  have m1: "1 \<le> m + 1" "m + 1 \<le> 12" using mr by simp_all
  show ?thesis
  proof (cases "0 \<le> y \<and> y \<le> 9999")
    case True
    have dy: "digits_int [digit_char (y div 1000 mod 10), digit_char (y div 100 mod 10),
                          digit_char (y div 10 mod 10), digit_char (y mod 10)] = Some y"
      using digits_int_pad4[of y] True by (simp add: pad4_def pad3_def)
    have ne: "digit_char (y div 1000 mod 10) \<noteq> CHR ''+''" "digit_char (y div 1000 mod 10) \<noteq> CHR ''-''"
      using digit_char_props[of "y div 1000 mod 10"] by simp_all
    have s: "toISOString (Some t) =
        Inr ([digit_char (y div 1000 mod 10), digit_char (y div 100 mod 10),
              digit_char (y div 10 mod 10), digit_char (y mod 10)] @ ''-''
             @ [digit_char ((m + 1) div 10 mod 10), digit_char ((m + 1) mod 10)] @ ''-''
             @ [digit_char (d div 10 mod 10), digit_char (d mod 10)] @ ''T''
             @ [digit_char (h div 10 mod 10), digit_char (h mod 10)] @ '':''
             @ [digit_char (mi div 10 mod 10), digit_char (mi mod 10)] @ '':''
             @ [digit_char (sec div 10 mod 10), digit_char (sec mod 10)] @ ''.''
             @ [digit_char (ms div 100 mod 10), digit_char (ms div 10 mod 10),
                digit_char (ms mod 10)] @ ''Z'')"
      using True
      by (simp add: toISOString_def iso_year_def Y M D h_def mi_def sec_def ms_def
          pad2_def pad3_def pad4_def)
    show ?thesis
      unfolding s
      using Date_parse_four[OF dy ne dm dd dh dmi ds dms m1 dr hr(2) mir(2) sr(2)] rebuilt
      by simp
  next
    case False
    define sg where "sg = (if y < 0 then CHR ''-'' else CHR ''+'')"
    have sgc: "sg = CHR ''+'' \<or> sg = CHR ''-''" by (simp add: sg_def)
    have ay: "0 \<le> \<bar>y\<bar>" "\<bar>y\<bar> < 1000000" using yr by simp_all
    have dy: "digits_int [digit_char (\<bar>y\<bar> div 100000 mod 10), digit_char (\<bar>y\<bar> div 10000 mod 10),
                          digit_char (\<bar>y\<bar> div 1000 mod 10), digit_char (\<bar>y\<bar> div 100 mod 10),
                          digit_char (\<bar>y\<bar> div 10 mod 10), digit_char (\<bar>y\<bar> mod 10)] = Some \<bar>y\<bar>"
      using digits_int_pad6[OF ay] by (simp add: pad6_def pad4_def pad3_def)
    have sy: "(if sg = CHR ''+'' then 1 else - 1) * \<bar>y\<bar> = y"
      using False by (auto simp add: sg_def)
    have s: "toISOString (Some t) =
        Inr (sg # [digit_char (\<bar>y\<bar> div 100000 mod 10), digit_char (\<bar>y\<bar> div 10000 mod 10),
                   digit_char (\<bar>y\<bar> div 1000 mod 10), digit_char (\<bar>y\<bar> div 100 mod 10),
                   digit_char (\<bar>y\<bar> div 10 mod 10), digit_char (\<bar>y\<bar> mod 10)] @ ''-''
             @ [digit_char ((m + 1) div 10 mod 10), digit_char ((m + 1) mod 10)] @ ''-''
             @ [digit_char (d div 10 mod 10), digit_char (d mod 10)] @ ''T''
             @ [digit_char (h div 10 mod 10), digit_char (h mod 10)] @ '':''
             @ [digit_char (mi div 10 mod 10), digit_char (mi mod 10)] @ '':''
             @ [digit_char (sec div 10 mod 10), digit_char (sec mod 10)] @ ''.''
             @ [digit_char (ms div 100 mod 10), digit_char (ms div 10 mod 10),
                digit_char (ms mod 10)] @ ''Z'')"
      using False
      by (simp add: toISOString_def iso_year_def Y M D h_def mi_def sec_def ms_def sg_def
          pad2_def pad3_def pad4_def pad6_def)
    show ?thesis
      unfolding s
      using Date_parse_six[OF dy sgc dm dd dh dmi ds dms m1 dr hr(2) mir(2) sr(2)] rebuilt
      unfolding sy by simp
  qed
qed

subsection \<open>The pipeline\<close>

lemma TimeClip_Some: "TimeClip x = Some t \<Longrightarrow> \<bar>t\<bar> \<le> 8640000000000000"
  by (simp add: TimeClip_def split: if_splits)

lemma try_formats_valid:
  assumes ok: "\<forall>s f n t. date_fns_parse e s f n = Some t \<longrightarrow> \<bar>t\<bar> \<le> 8640000000000000"
  shows "try_formats e s now fmts = Some (Some t) \<Longrightarrow> \<bar>t\<bar> \<le> 8640000000000000"
proof (induction fmts)
  case Nil
  then show ?case by simp
next
  case (Cons fmt fmts)
  show ?case
  proof (cases "date_fns_parse e s fmt now")
    case None
    with Cons show ?thesis by simp
  next
    case (Some p)
    with ok have "\<bar>p\<bar> \<le> 8640000000000000" by blast
    with Cons.prems Some show ?thesis
      by (auto simp add: setHours_def Let_def dest: TimeClip_Some split: if_splits)
  qed
qed

lemma parseDeadline_valid:
  assumes ok: "\<forall>s f n t. date_fns_parse e s f n = Some t \<longrightarrow> \<bar>t\<bar> \<le> 8640000000000000"
    and r: "fst (parseDeadline e s w) = Some t"
  shows "\<bar>t\<bar> \<le> 8640000000000000"
proof -
  let ?n = "trim (toLowerCase s)"
  consider "?n = ''today''" | "?n = ''tomorrow''" | "?n = ''day after tomorrow''" | "?n = ''none''"
    | "?n \<notin> {''today'', ''tomorrow'', ''day after tomorrow'', ''none''}" by auto
  then show ?thesis
  proof cases
    case 1
    with r show ?thesis
      by (auto simp add: parseDeadline_today Date_local_def Let_def dest: TimeClip_Some)
  next
    case 2
    with r show ?thesis by (auto simp add: parseDeadline_tomorrow dest: TimeClip_Some)
  next
    case 3
    with r show ?thesis by (auto simp add: parseDeadline_day_after dest: TimeClip_Some)
  next
    case 4
    with r show ?thesis by (auto simp add: parseDeadline_none dest: TimeClip_Some)
  next
    case 5
    from r show ?thesis
      unfolding parseDeadline_other[OF 5]
      by (auto simp add: addHours_def dest: TimeClip_Some try_formats_valid[OF ok]
          split: option.splits)
  qed
qed

lemma processEmail_cases:
  assumes "extractInfoWithGemini e (body_of e m) (subject_of m) w = (Inr x, w1)"
  shows "fst (processEmail e m w) =
     (case toISOString (fst (parseDeadline e (deadline x) w1)) of
        Inl err \<Rightarrow> Inl err
      | Inr isoStr \<Rightarrow>
          Inr \<lparr> task_eventType = eventType x, task_subject = subject x, task_deadline = isoStr,
                task_urgency = urgency x, task_importance = importance x, task_score = score x,
                task_priority = fst (categorizeTask e x (fst (parseDeadline e (deadline x) w1))
                                       (snd (parseDeadline e (deadline x) w1))),
                task_registrationLink = registrationLink x, task_summary = summary x \<rparr>)"
  using assms by (simp add: processEmail_def Let_def split: prod.splits sum.splits)

lemma processEmail_deadline:
  assumes ok: "\<forall>s f n t. date_fns_parse e s f n = Some t \<longrightarrow> \<bar>t\<bar> \<le> 8640000000000000"
    and r: "fst (processEmail e m w) = Inr task"
  shows "\<exists>x w1. extractInfoWithGemini e (body_of e m) (subject_of m) w = (Inr x, w1) \<and>
           toISOString (fst (parseDeadline e (deadline x) w1)) = Inr (task_deadline task) \<and>
           Date_parse (task_deadline task) = fst (parseDeadline e (deadline x) w1) \<and>
           (\<exists>d. \<bar>d\<bar> \<le> 8640000000000000 \<and> fst (parseDeadline e (deadline x) w1) = Some d)"
proof -
  from extract_total[of e "body_of e m" "subject_of m" w]
  obtain x w1 where ex: "extractInfoWithGemini e (body_of e m) (subject_of m) w = (Inr x, w1)"
    by blast
  let ?dl = "fst (parseDeadline e (deadline x) w1)"
  from r have iso: "toISOString ?dl = Inr (task_deadline task)"
    unfolding processEmail_cases[OF ex] by (auto split: sum.splits)
  then obtain d where d: "?dl = Some d" by (cases ?dl) (simp_all add: toISOString_def)
  from parseDeadline_valid[OF ok d] have v: "\<bar>d\<bar> \<le> 8640000000000000" .
  from toISOString_round_trip[OF v] iso d have "Date_parse (task_deadline task) = Some d" by auto
  with ex iso d v show ?thesis by auto
qed

lemma processEmails_loop_tasks:
  assumes "\<And>m w task. fst (processEmail e m w) = Inr task \<Longrightarrow> P task"
  shows "fst (processEmails_loop e ms acc w) = Inr tasks \<Longrightarrow> \<forall>t \<in> set acc. P t \<Longrightarrow>
         (\<forall>t \<in> set tasks. P t) \<and> length tasks = length acc + length ms"
proof (induction ms arbitrary: acc w)
  case Nil
  then show ?case by simp
next
  case (Cons m ms)
  obtain r w' where pe: "processEmail e m w = (r, w')" by (cases "processEmail e m w")
  show ?case
  proof (cases r)
    case (Inl err)
    with Cons.prems pe show ?thesis by simp
  next
    case (Inr t)
    with pe have "fst (processEmail e m w) = Inr t" by simp
    then have "P t" by (rule assms)
    with Cons.prems(2) have acc: "\<forall>t \<in> set (acc @ [t]). P t" by simp
    from Cons.prems(1) pe Inr have "fst (processEmails_loop e ms (acc @ [t]) w') = Inr tasks"
      by simp
    from Cons.IH[OF this acc] show ?thesis by simp
  qed
qed

text \<open>
  C8. Provided the \<open>parse\<close> of date-fns returns Dates (time values within the range
  of a Date): the deadline of a task that \<open>processEmail\<close> returns is the \<open>toISOString\<close>
  of the Date that \<open>parseDeadline\<close> gave, and reading that string back gives this
  very Date; every task of a batch that \<open>processEmails\<close> returns has a deadline string
  that reads back to the instant it was written from; and every valid Date survives
  \<open>toISOString\<close> followed by the reading back, to the millisecond.
\<close>

theorem C8_deadline_round_trip:
  assumes "\<forall>s f n t. date_fns_parse e s f n = Some t \<longrightarrow> \<bar>t\<bar> \<le> 8640000000000000"
  shows "(\<forall>m w task. fst (processEmail e m w) = Inr task \<longrightarrow>
            (\<exists>x w1. extractInfoWithGemini e (body_of e m) (subject_of m) w = (Inr x, w1) \<and>
               toISOString (fst (parseDeadline e (deadline x) w1)) = Inr (task_deadline task) \<and>
               Date_parse (task_deadline task) = fst (parseDeadline e (deadline x) w1))) \<and>
         (\<forall>ms w tasks. fst (processEmails e ms w) = Inr tasks \<longrightarrow>
            (\<forall>task \<in> set tasks. \<exists>d. toISOString (Some d) = Inr (task_deadline task) \<and>
                                    Date_parse (task_deadline task) = Some d)) \<and>
         (\<forall>d. \<bar>d\<bar> \<le> 8640000000000000 \<longrightarrow>
            (\<exists>s. toISOString (Some d) = Inr s \<and> Date_parse s = Some d))"
proof (intro conjI allI impI)
  fix m w task assume "fst (processEmail e m w) = Inr task"
  from processEmail_deadline[OF assms this]
  show "\<exists>x w1. extractInfoWithGemini e (body_of e m) (subject_of m) w = (Inr x, w1) \<and>
               toISOString (fst (parseDeadline e (deadline x) w1)) = Inr (task_deadline task) \<and>
               Date_parse (task_deadline task) = fst (parseDeadline e (deadline x) w1)"
    by blast
next
  fix ms w tasks assume r: "fst (processEmails e ms w) = Inr tasks"
  have one: "\<exists>d. toISOString (Some d) = Inr (task_deadline task) \<and>
                 Date_parse (task_deadline task) = Some d"
    if "fst (processEmail e m w) = Inr task" for m w task
    using processEmail_deadline[OF assms that] by (metis)
  from processEmails_loop_tasks[where P = "\<lambda>task. \<exists>d. toISOString (Some d) = Inr (task_deadline task) \<and>
                 Date_parse (task_deadline task) = Some d" and e = e and ms = ms and acc = "[]"
                 and w = w and tasks = tasks, OF one] r
  show "\<forall>task \<in> set tasks. \<exists>d. toISOString (Some d) = Inr (task_deadline task) \<and>
                                    Date_parse (task_deadline task) = Some d"
    by (simp add: processEmails_def)
next
  fix d :: int assume "\<bar>d\<bar> \<le> 8640000000000000"
  then show "\<exists>s. toISOString (Some d) = Inr s \<and> Date_parse s = Some d"
    by (rule toISOString_round_trip)
qed

theorem C8_witness:
  "map_sum id (map task_deadline)
      (fst (processEmails (test_env (\<lambda>k. 1750000000000) (\<lambda>k. Text three_lines)) [sample_mail] start))
     = Inr [''2025-06-16T15:06:40.000Z''] \<and>
   toISOString (Some 1750086400000) = Inr ''2025-06-16T15:06:40.000Z'' \<and>
   Date_parse ''2025-06-16T15:06:40.000Z'' = Some 1750086400000"
proof -
  let ?E = "test_env (\<lambda>k. 1750000000000) (\<lambda>k. Text three_lines)"
  have ok: "\<forall>s f n t. date_fns_parse ?E s f n = Some t \<longrightarrow> \<bar>t\<bar> \<le> 8640000000000000"
    by (simp add: test_env_def)
  have run: "map_sum id (map task_deadline) (fst (processEmails ?E [sample_mail] start))
     = Inr [''2025-06-16T15:06:40.000Z'']"
    by code_simp
  have iso: "toISOString (Some 1750086400000) = Inr ''2025-06-16T15:06:40.000Z''"
    by code_simp
  from C8_deadline_round_trip[OF ok]
  have "\<exists>s. toISOString (Some 1750086400000) = Inr s \<and> Date_parse s = Some 1750086400000"
    by simp
  with iso have "Date_parse ''2025-06-16T15:06:40.000Z'' = Some 1750086400000" by auto
  with run iso show ?thesis by blast
qed

text \<open>
  C5. \<open>processEmails\<close> does not return a task for every mail whatever happens. A
  failing call of the model alone is absorbed: three mails whose extraction fails give
  three tasks. But when the response for the second of three mails has the deadline
  \<open>within 9999999999 hours\<close>, \<open>parseDeadline\<close> returns an Invalid Date (this path has no
  \<open>isValid\<close> check, unlike the loop over the formats), \<open>toISOString\<close> raises a
  RangeError that nothing catches, and the whole batch is lost.
\<close>

theorem C5_range_error:
  "fst (processEmails
          (test_env (\<lambda>k. 1750000000000)
             (\<lambda>k. if k = 1 then Text huge_reply else CallFails ServiceError))
          [sample_mail, sample_mail, sample_mail] start) = Inl RangeError \<and>
   map_sum id length
     (fst (processEmails (test_env (\<lambda>k. 1750000000000) (\<lambda>k. CallFails ServiceError))
          [sample_mail, sample_mail, sample_mail] start)) = Inr 3"
  by code_simp

subsection \<open>The clock\<close>

lemma clock_irrelevant:
  "setHours (e\<lparr>clock := c\<rparr>) = setHours e"
  "addDays (e\<lparr>clock := c\<rparr>) = addDays e"
  "Date_local (e\<lparr>clock := c\<rparr>) = Date_local e"
  "getFullYear (e\<lparr>clock := c\<rparr>) = getFullYear e"
  "getMonth (e\<lparr>clock := c\<rparr>) = getMonth e"
  "getDate (e\<lparr>clock := c\<rparr>) = getDate e"
  by (simp_all add: fun_eq_iff setHours_def addDays_def setDate_def Date_local_def getFullYear_def
      getMonth_def getDate_def LocalTime_def UTC_def)

lemma try_formats_clock: "try_formats (e\<lparr>clock := c\<rparr>) s now fmts = try_formats e s now fmts"
  by (induction fmts) (simp_all add: clock_irrelevant split: option.splits)

lemma plain_part_clock: "plain_part (e\<lparr>clock := c\<rparr>) ps = plain_part e ps"
  by (induction ps) (simp_all split: option.splits)

lemma parseDeadline_clock:
  "c (clock_reads w) = clock e (clock_reads w) \<Longrightarrow>
   parseDeadline (e\<lparr>clock := c\<rparr>) s w = parseDeadline e s w"
  by (simp add: parseDeadline_def new_Date_def Let_def try_formats_clock clock_irrelevant
      split: option.splits)

lemma categorizeTask_clock:
  "c (clock_reads w) = clock e (clock_reads w) \<Longrightarrow>
   categorizeTask (e\<lparr>clock := c\<rparr>) x dl w = categorizeTask e x dl w"
  by (simp add: categorizeTask_def new_Date_def Let_def)

lemma extract_clock:
  "extractInfoWithGemini (e\<lparr>clock := c\<rparr>) b s w = extractInfoWithGemini e b s w"
  by (simp add: extractInfoWithGemini_def generateContent_def)

lemma body_of_clock: "body_of (e\<lparr>clock := c\<rparr>) m = body_of e m"
  by (simp add: body_of_def plain_part_clock split: option.splits)

lemma categorizeTask_world:
  "snd (categorizeTask e x dl w) = w\<lparr>clock_reads := Suc (clock_reads w)\<rparr>"
  by (simp add: categorizeTask_def new_Date_def Let_def)

lemma processEmail_unfold:
  assumes "extractInfoWithGemini e (body_of e m) (subject_of m) w = (Inr x, w1)"
  shows "processEmail e m w =
     (let p = parseDeadline e (deadline x) w1;
          q = categorizeTask e x (fst p) (snd p)
      in (case toISOString (fst p) of
            Inl err \<Rightarrow> Inl err
          | Inr isoStr \<Rightarrow>
              Inr \<lparr> task_eventType = eventType x, task_subject = subject x,
                    task_deadline = isoStr, task_urgency = urgency x,
                    task_importance = importance x, task_score = score x,
                    task_priority = fst q, task_registrationLink = registrationLink x,
                    task_summary = summary x \<rparr>,
          snd q))"
  using assms by (simp add: processEmail_def Let_def split: prod.splits sum.splits)

lemma clock_two_reads:
  assumes c0: "c (clock_reads w) = clock e (clock_reads w)"
    and c1: "c (Suc (clock_reads w)) = clock e (Suc (clock_reads w))"
  shows "processEmail (e\<lparr>clock := c\<rparr>) m w = processEmail e m w"
proof -
  from extract_total[of e "body_of e m" "subject_of m" w]
  obtain x where ex: "extractInfoWithGemini e (body_of e m) (subject_of m) w
      = (Inr x, w\<lparr>model_calls := Suc (model_calls w)\<rparr>)" by blast
  let ?w1 = "w\<lparr>model_calls := Suc (model_calls w)\<rparr>"
  have ex': "extractInfoWithGemini (e\<lparr>clock := c\<rparr>) (body_of (e\<lparr>clock := c\<rparr>) m) (subject_of m) w
      = (Inr x, ?w1)" by (simp add: extract_clock body_of_clock ex)
  have p: "parseDeadline (e\<lparr>clock := c\<rparr>) (deadline x) ?w1 = parseDeadline e (deadline x) ?w1"
    by (rule parseDeadline_clock) (simp add: c0)
  have q: "categorizeTask (e\<lparr>clock := c\<rparr>) x dl (snd (parseDeadline e (deadline x) ?w1))
      = categorizeTask e x dl (snd (parseDeadline e (deadline x) ?w1))" for dl
    by (rule categorizeTask_clock) (simp add: parseDeadline_world c1)
  show ?thesis
    by (simp add: processEmail_unfold[OF ex] processEmail_unfold[OF ex'] Let_def p q
        split: sum.splits)
qed

lemma clock_reads_processEmail: "clock_reads (snd (processEmail e m w)) = clock_reads w + 2"
proof -
  from extract_total[of e "body_of e m" "subject_of m" w]
  obtain x where ex: "extractInfoWithGemini e (body_of e m) (subject_of m) w
      = (Inr x, w\<lparr>model_calls := Suc (model_calls w)\<rparr>)" by blast
  show ?thesis
    unfolding processEmail_unfold[OF ex]
    by (simp add: Let_def categorizeTask_world parseDeadline_world)
qed

lemma deadline_first_read:
  assumes c0: "c (clock_reads w) = clock e (clock_reads w)"
  shows "map_sum id task_deadline (fst (processEmail (e\<lparr>clock := c\<rparr>) m w))
       = map_sum id task_deadline (fst (processEmail e m w))"
proof -
  from extract_total[of e "body_of e m" "subject_of m" w]
  obtain x where ex: "extractInfoWithGemini e (body_of e m) (subject_of m) w
      = (Inr x, w\<lparr>model_calls := Suc (model_calls w)\<rparr>)" by blast
  let ?w1 = "w\<lparr>model_calls := Suc (model_calls w)\<rparr>"
  have ex': "extractInfoWithGemini (e\<lparr>clock := c\<rparr>) (body_of (e\<lparr>clock := c\<rparr>) m) (subject_of m) w
      = (Inr x, ?w1)" by (simp add: extract_clock body_of_clock ex)
  have p: "parseDeadline (e\<lparr>clock := c\<rparr>) (deadline x) ?w1 = parseDeadline e (deadline x) ?w1"
    by (rule parseDeadline_clock) (simp add: c0)
  show ?thesis
    by (simp add: processEmail_unfold[OF ex] processEmail_unfold[OF ex'] Let_def p
        split: sum.splits)
qed

text \<open>
  C6, as the code has it. \<open>parseDeadline\<close> and \<open>categorizeTask\<close> each read the clock
  themselves, and what each returns depends on the clock only through the one reading
  it takes. For one mail, \<open>processEmail\<close> takes two readings, the first for the
  deadline and the next for the priority: only these two matter, the deadline depends
  on the first alone, and the task is what a single captured reference gives when the
  clock does not advance between the two.
\<close>

theorem C6_two_clock_reads:
  "(\<forall>c s. c (clock_reads w) = clock e (clock_reads w) \<longrightarrow>
      parseDeadline (e\<lparr>clock := c\<rparr>) s w = parseDeadline e s w) \<and>
   (\<forall>c x dl. c (clock_reads w) = clock e (clock_reads w) \<longrightarrow>
      categorizeTask (e\<lparr>clock := c\<rparr>) x dl w = categorizeTask e x dl w) \<and>
   (\<forall>c m. c (clock_reads w) = clock e (clock_reads w) \<and>
          c (Suc (clock_reads w)) = clock e (Suc (clock_reads w)) \<longrightarrow>
      processEmail (e\<lparr>clock := c\<rparr>) m w = processEmail e m w) \<and>
   (\<forall>c m. c (clock_reads w) = clock e (clock_reads w) \<longrightarrow>
      map_sum id task_deadline (fst (processEmail (e\<lparr>clock := c\<rparr>) m w))
        = map_sum id task_deadline (fst (processEmail e m w))) \<and>
   (\<forall>m. clock_reads (snd (processEmail e m w)) = clock_reads w + 2) \<and>
   (\<forall>m. clock e (Suc (clock_reads w)) = clock e (clock_reads w) \<longrightarrow>
      processEmail (e\<lparr>clock := (\<lambda>k. clock e (clock_reads w))\<rparr>) m w = processEmail e m w)"
  by (intro conjI allI impI)
     (simp_all add: parseDeadline_clock categorizeTask_clock clock_two_reads deadline_first_read
        clock_reads_processEmail)

lemma toISOString_Some: "\<exists>s. toISOString (Some t) = Inr s"
  by (simp add: toISOString_def)

lemma drift_extracted:
  "parse_response drift_reply (subject_of sample_mail) =
     \<lparr> eventType = ''Meeting'', subject = ''Team sync'', deadline = ''within 25 hours'',
       urgency = ''low'', importance = ''low'', score = ''5'', registrationLink = ''none'',
       summary = ''A meeting'' \<rparr>"
  by code_simp

lemma within_25:
  "trim (toLowerCase ''within 25 hours'') = ''within 25 hours''"
  "match_within ''within 25 hours'' = Some ''25''"
  "parseInt ''25'' = 25"
  by code_simp+

lemma drift_priority:
  "map_sum id task_priority
     (fst (processEmail (test_env c (\<lambda>k. Text drift_reply)) sample_mail start)) =
   (if \<bar>c 0 + 25 * msPerHour\<bar> \<le> 8640000000000000
    then Inr (if c 0 + 25 * msPerHour - c 1 < 25 * msPerHour then Urgent
              else if c 0 + 25 * msPerHour - c 1 < 73 * msPerHour then Important
              else Later)
    else Inl RangeError)"
proof -
  let ?E = "test_env c (\<lambda>k. Text drift_reply)"
  let ?x = "parse_response drift_reply (subject_of sample_mail)"
  let ?w1 = "start\<lparr>model_calls := Suc (model_calls start)\<rparr>"
  have g: "generate ?E (model_calls start) (make_prompt (body_of ?E sample_mail)) = Text drift_reply"
    by (simp add: test_env_def)
  from extract_Text[OF g, of "subject_of sample_mail"]
  have ex: "extractInfoWithGemini ?E (body_of ?E sample_mail) (subject_of sample_mail) start
      = (Inr ?x, ?w1)" .
  have dl: "deadline ?x = ''within 25 hours''" and u: "urgency ?x = ''low''"
    and i: "importance ?x = ''low''"
    by (simp_all add: drift_extracted)
  have lit: "trim (toLowerCase ''within 25 hours'') \<notin> {''today'', ''tomorrow'', ''day after tomorrow'', ''none''}"
    unfolding within_25 by simp
  have c0: "clock ?E (clock_reads ?w1) = c 0" by (simp add: test_env_def start_def)
  define dv where "dv = c 0 + 25 * msPerHour"
  have p1: "fst (parseDeadline ?E (deadline ?x) ?w1) = TimeClip dv"
    unfolding dl parseDeadline_other[OF lit] within_25 c0 dv_def
    by (simp add: addHours_def within_25)
  have p2: "snd (parseDeadline ?E (deadline ?x) ?w1) = ?w1\<lparr>clock_reads := Suc (clock_reads ?w1)\<rparr>"
    by (rule parseDeadline_world)
  have goal: "map_sum id task_priority (fst (processEmail ?E sample_mail start)) =
     (if \<bar>dv\<bar> \<le> 8640000000000000
      then Inr (if dv - c 1 < 25 * msPerHour then Urgent
                else if dv - c 1 < 73 * msPerHour then Important
                else Later)
      else Inl RangeError)"
  proof (cases "\<bar>dv\<bar> \<le> 8640000000000000")
    case False
    then have "fst (parseDeadline ?E (deadline ?x) ?w1) = None" by (simp add: p1 TimeClip_def)
    then show ?thesis
      using False by (simp add: processEmail_cases[OF ex] toISOString_def)
  next
    case True
    then have d: "fst (parseDeadline ?E (deadline ?x) ?w1) = Some dv"
      by (simp add: p1 TimeClip_def)
    obtain s where s: "toISOString (Some dv) = Inr s"
      using toISOString_Some by blast
    have pr: "fst (categorizeTask ?E ?x (Some dv) w2) =
        (if dv - c 1 < 25 * msPerHour then Urgent
         else if dv - c 1 < 73 * msPerHour then Important
         else Later)" if "clock_reads w2 = 1" for w2
      using js_le_hours[of 24 dv "c 1"] js_le_hours[of 72 dv "c 1"] that
      by (simp add: categorizeTask_def new_Date_def Let_def u i test_env_def)
    have w2: "clock_reads (snd (parseDeadline ?E (deadline ?x) ?w1)) = 1"
      by (simp add: parseDeadline_world start_def)
    have "map_sum id task_priority (fst (processEmail ?E sample_mail start)) =
        Inr (fst (categorizeTask ?E ?x (Some dv) (snd (parseDeadline ?E (deadline ?x) ?w1))))"
      by (simp add: processEmail_cases[OF ex] d s)
    then show ?thesis
      using True unfolding pr[OF w2] by simp
  qed
  then show ?thesis unfolding dv_def .
qed

text \<open>
  C6, as stated, fails: with a clock that advances by one millisecond between the two
  readings and a deadline 25 hours away, the task has the priority Urgent (24 whole
  hours are left at the second reading), and no single reference instant used for both
  the deadline and the priority gives that task.
\<close>

theorem C6_counterexample:
  "\<not> (\<exists>now. fst (processEmail ((test_env tick_clock (\<lambda>k. Text drift_reply))\<lparr>clock := (\<lambda>k. now)\<rparr>)
                     sample_mail start)
             = fst (processEmail (test_env tick_clock (\<lambda>k. Text drift_reply)) sample_mail start))"
proof
  assume "\<exists>now. fst (processEmail ((test_env tick_clock (\<lambda>k. Text drift_reply))\<lparr>clock := (\<lambda>k. now)\<rparr>)
                     sample_mail start)
             = fst (processEmail (test_env tick_clock (\<lambda>k. Text drift_reply)) sample_mail start)"
  then obtain now where
    eq: "fst (processEmail ((test_env tick_clock (\<lambda>k. Text drift_reply))\<lparr>clock := (\<lambda>k. now)\<rparr>)
                     sample_mail start)
             = fst (processEmail (test_env tick_clock (\<lambda>k. Text drift_reply)) sample_mail start)" ..
  have e: "(test_env tick_clock (\<lambda>k. Text drift_reply))\<lparr>clock := (\<lambda>k. now)\<rparr>
       = test_env (\<lambda>k. now) (\<lambda>k. Text drift_reply)"
    by (simp add: test_env_def)
  have actual: "map_sum id task_priority
      (fst (processEmail (test_env tick_clock (\<lambda>k. Text drift_reply)) sample_mail start)) = Inr Urgent"
    unfolding drift_priority by (simp add: tick_clock_def)
  have single: "map_sum id task_priority
      (fst (processEmail (test_env (\<lambda>k. now) (\<lambda>k. Text drift_reply)) sample_mail start)) \<noteq> Inr Urgent"
    unfolding drift_priority by simp
  from eq actual single show False unfolding e by simp
qed

theorem C6_witness:
  "(\<lambda>k. if k < 2 then tick_clock k else 0) (clock_reads start)
      = clock (test_env tick_clock (\<lambda>k. Text drift_reply)) (clock_reads start) \<and>
   (\<lambda>k. if k < 2 then tick_clock k else 0) (Suc (clock_reads start))
      = clock (test_env tick_clock (\<lambda>k. Text drift_reply)) (Suc (clock_reads start)) \<and>
   processEmail ((test_env tick_clock (\<lambda>k. Text drift_reply))
                    \<lparr>clock := (\<lambda>k. if k < 2 then tick_clock k else 0)\<rparr>) sample_mail start
     = processEmail (test_env tick_clock (\<lambda>k. Text drift_reply)) sample_mail start \<and>
   clock_reads (snd (processEmail (test_env tick_clock (\<lambda>k. Text drift_reply)) sample_mail start)) = 2 \<and>
   clock (test_env (\<lambda>k. 1750000000000) (\<lambda>k. Text drift_reply)) (Suc (clock_reads start))
     = clock (test_env (\<lambda>k. 1750000000000) (\<lambda>k. Text drift_reply)) (clock_reads start) \<and>
   map_sum id task_priority
     (fst (processEmail (test_env (\<lambda>k. 1750000000000) (\<lambda>k. Text drift_reply)) sample_mail start))
     = Inr Important"
proof -
  let ?D = "test_env tick_clock (\<lambda>k. Text drift_reply)"
  let ?c = "\<lambda>k. if k < 2 then tick_clock k else 0"
  have h0: "?c (clock_reads start) = clock ?D (clock_reads start)"
    and h1: "?c (Suc (clock_reads start)) = clock ?D (Suc (clock_reads start))"
    by (simp_all add: test_env_def start_def)
  from C6_two_clock_reads[of start ?D, THEN conjunct2, THEN conjunct2, THEN conjunct1,
      rule_format, of ?c sample_mail] h0 h1
  have a: "processEmail (?D\<lparr>clock := ?c\<rparr>) sample_mail start = processEmail ?D sample_mail start"
    by simp
  from C6_two_clock_reads[of start ?D]
  have b: "clock_reads (snd (processEmail ?D sample_mail start)) = 2"
    by (simp add: start_def)
  have still: "clock (test_env (\<lambda>k. 1750000000000) (\<lambda>k. Text drift_reply)) (Suc (clock_reads start))
     = clock (test_env (\<lambda>k. 1750000000000) (\<lambda>k. Text drift_reply)) (clock_reads start)"
    by (simp add: test_env_def)
  have imp: "map_sum id task_priority
     (fst (processEmail (test_env (\<lambda>k. 1750000000000) (\<lambda>k. Text drift_reply)) sample_mail start))
     = Inr Important"
    unfolding drift_priority by simp
  from h0 h1 a b still imp show ?thesis by blast
qed

subsection \<open>What a batch can do\<close>

text \<open>
  The only error \<open>processEmail\<close> can end with is the RangeError of \<open>toISOString\<close> on
  an Invalid Date; a batch that returns has one task for each mail; a failing call of
  the model gives the task of the fallback object.
\<close>

lemma processEmail_error:
  assumes "fst (processEmail e m w) = Inl err"
  shows "err = RangeError \<and>
         (\<exists>x w1. extractInfoWithGemini e (body_of e m) (subject_of m) w = (Inr x, w1) \<and>
                  fst (parseDeadline e (deadline x) w1) = None)"
proof -
  from extract_total[of e "body_of e m" "subject_of m" w]
  obtain x w1 where ex: "extractInfoWithGemini e (body_of e m) (subject_of m) w = (Inr x, w1)"
    by blast
  from assms have "toISOString (fst (parseDeadline e (deadline x) w1)) = Inl err"
    unfolding processEmail_cases[OF ex] by (auto split: sum.splits)
  then have "err = RangeError \<and> fst (parseDeadline e (deadline x) w1) = None"
    by (cases "fst (parseDeadline e (deadline x) w1)") (auto simp add: toISOString_def)
  with ex show ?thesis by blast
qed

lemma processEmails_length:
  assumes "fst (processEmails e ms w) = Inr tasks"
  shows "length tasks = length ms"
  using processEmails_loop_tasks[where P = "\<lambda>t. True" and e = e and ms = ms and acc = "[]"
      and w = w and tasks = tasks] assms
  by (simp add: processEmails_def)

lemma extraction_failure_absorbed:
  assumes "generate e (model_calls w) (make_prompt (body_of e m)) = CallFails err"
    and "\<bar>clock e (clock_reads w) + 7 * msPerDay\<bar> \<le> 8640000000000000"
  shows "\<exists>task. fst (processEmail e m w) = Inr task \<and> task_subject task = subject_of m \<and>
           task_summary task = ''Could not extract information.''"
proof -
  let ?w1 = "w\<lparr>model_calls := Suc (model_calls w)\<rparr>"
  from extract_CallFails[OF assms(1), of "subject_of m"]
  have ex: "extractInfoWithGemini e (body_of e m) (subject_of m) w = (Inr (fallback (subject_of m)), ?w1)" .
  have "fst (parseDeadline e (deadline (fallback (subject_of m))) ?w1)
      = TimeClip (clock e (clock_reads w) + 7 * msPerDay)"
    using parseDeadline_none[OF literals_norm(1), of e ?w1] by (simp add: fallback_def)
  with assms(2) have d: "fst (parseDeadline e (deadline (fallback (subject_of m))) ?w1)
      = Some (clock e (clock_reads w) + 7 * msPerDay)" by (simp add: TimeClip_def)
  obtain s where s: "toISOString (Some (clock e (clock_reads w) + 7 * msPerDay)) = Inr s"
    using toISOString_Some by blast
  show ?thesis
    unfolding processEmail_cases[OF ex] d s by (simp add: fallback_def)
qed

end
